theory Spec2Isabelle
  imports Complex_Main
begin

section \<open>Values: points, alignment tags, styles\<close>

text \<open>
  Positions, offsets and integer dimensions are pairs of Python ints. The end points that
  \<open>DottedLine.render\<close> hands to the renderer come out of float arithmetic; they are
  pairs of reals (float arithmetic is idealised as exact real arithmetic, which it is on
  the axis-parallel integer segments the examples use).
\<close>

type_synonym point = "int \<times> int"
type_synonym fpoint = "real \<times> real"

text \<open>Modelled from the spec: module \<open>point\<close> is not among the sources; \<open>P + P\<close> is
  component-wise addition of two points.\<close>
definition P_add :: "point \<Rightarrow> point \<Rightarrow> point" where
  "P_add p q = (fst p + fst q, snd p + snd q)"

text \<open>Modelled from the spec: module \<open>point\<close> is not among the sources; \<open>P - P\<close> is
  component-wise subtraction of two points.\<close>
definition P_sub :: "point \<Rightarrow> point \<Rightarrow> point" where
  "P_sub p q = (fst p - fst q, snd p - snd q)"

text \<open>Modelled from the spec: module \<open>point\<close> is not among the sources; \<open>P + k\<close> adds
  the number \<open>k\<close> to both coordinates (the reading under which a canvas of padding 10
  around a 50 by 30 child measures 70 by 50).\<close>
definition P_add_scalar :: "point \<Rightarrow> int \<Rightarrow> point" where
  "P_add_scalar p k = (fst p + k, snd p + k)"

text \<open>Modelled from the spec: module \<open>point\<close> is not among the sources; \<open>P - k\<close>
  subtracts the number \<open>k\<close> from both coordinates.\<close>
definition P_sub_scalar :: "point \<Rightarrow> int \<Rightarrow> point" where
  "P_sub_scalar p k = (fst p - k, snd p - k)"

text \<open>Modelled from the spec: module \<open>point\<close> is not among the sources; the sum of two
  points with float coordinates.\<close>
definition F_add :: "fpoint \<Rightarrow> fpoint \<Rightarrow> fpoint" where
  "F_add p q = (fst p + fst q, snd p + snd q)"

text \<open>Modelled from the spec: module \<open>point\<close> is not among the sources; \<open>P * k\<close>
  multiplies both coordinates by the number \<open>k\<close>.\<close>
definition F_scale :: "fpoint \<Rightarrow> real \<Rightarrow> fpoint" where
  "F_scale p k = (fst p * k, snd p * k)"

text \<open>Modelled from the spec: module \<open>point\<close> is not among the sources; \<open>P / k\<close>
  divides both coordinates by the number \<open>k\<close>.\<close>
definition F_div :: "fpoint \<Rightarrow> real \<Rightarrow> fpoint" where
  "F_div p k = (fst p / k, snd p / k)"

text \<open>An integer point read as a point of numbers.\<close>
definition to_f :: "point \<Rightarrow> fpoint" where
  "to_f p = (of_int (fst p), of_int (snd p))"

datatype Align = TOP | CENTER | BOTTOM | RIGHT | LEFT

datatype Anchor =
    TOP_LEFT | TOP_MIDDLE | TOP_RIGHT
  | MIDDLE_LEFT | MIDDLE_MIDDLE | MIDDLE_RIGHT
  | BOTTOM_LEFT | BOTTOM_MIDDLE | BOTTOM_RIGHT

record Style =
  padding :: int
  font :: string
  font_size :: int
  anchor :: Anchor
  stroke_color :: string
  fill_color :: string
  font_color :: string

text \<open>\<open>Style()\<close>: the field defaults of the named tuple.\<close>
definition Style_default :: Style where
  "Style_default =
     \<lparr>padding = 10, font = ''Roboto-Regular.ttf'', font_size = 32, anchor = TOP_LEFT,
      stroke_color = ''black'', fill_color = ''white'', font_color = ''black''\<rparr>"

text \<open>One keyword argument of \<open>style._replace(**kwargs)\<close>.\<close>
datatype style_kw =
    kw_padding int | kw_font string | kw_font_size int | kw_anchor Anchor
  | kw_stroke_color string | kw_fill_color string | kw_font_color string

primrec Style_replace1 :: "Style \<Rightarrow> style_kw \<Rightarrow> Style" where
  "Style_replace1 s (kw_padding v) = s\<lparr>padding := v\<rparr>"
| "Style_replace1 s (kw_font v) = s\<lparr>font := v\<rparr>"
| "Style_replace1 s (kw_font_size v) = s\<lparr>font_size := v\<rparr>"
| "Style_replace1 s (kw_anchor v) = s\<lparr>anchor := v\<rparr>"
| "Style_replace1 s (kw_stroke_color v) = s\<lparr>stroke_color := v\<rparr>"
| "Style_replace1 s (kw_fill_color v) = s\<lparr>fill_color := v\<rparr>"
| "Style_replace1 s (kw_font_color v) = s\<lparr>font_color := v\<rparr>"

definition Style_replace :: "Style \<Rightarrow> style_kw list \<Rightarrow> Style" where
  "Style_replace s kwargs = foldl Style_replace1 s kwargs"

section \<open>Objects, the heap and the module state\<close>

text \<open>
  Nodes are Python objects: they are shared by reference between the caller and the
  \<open>children\<close> list of their parent, and the getters, setters and \<open>prepare\<close> mutate
  them in place. The model keeps them in a store indexed by references. \<open>stored_w\<close>
  and \<open>stored_h\<close> are the attributes \<open>_w\<close> and \<open>_h\<close>. Attributes that only some
  classes have (\<open>align\<close>, \<open>start\<close>, \<open>end\<close>, \<open>dash_len\<close>, \<open>double_sided\<close>,
  \<open>alen\<close>, \<open>text\<close>) are fields of every record and are read only for those classes.
\<close>

type_synonym ref = nat

datatype kind =
    Object | VLayout | HLayout | Rectangle | Line | TextBox | Table
  | DottedLine | Arrow | Spacer | Text | Canvas

record obj =
  kind_of :: kind
  stored_w :: "int option"
  stored_h :: "int option"
  style :: Style
  children :: "(ref \<times> point) list"
  parent :: "ref option"
  align :: Align
  line_start :: point
  line_end :: point
  dash_len :: int
  double_sided :: bool
  alen :: int
  text_of :: string

type_synonym heap = "ref \<Rightarrow> obj option"

text \<open>The module state: the objects, the global \<open>default_style\<close>, the next fresh reference.\<close>
record world =
  heap :: heap
  default_style :: Style
  next_ref :: ref

text \<open>
  Python's exceptions as values. \<open>RecursionError\<close> is what a call chain that exhausts
  the recursion depth (the fuel of \<open>width\<close>, \<open>height\<close>, \<open>prepare\<close>, \<open>render\<close>)
  ends in. \<open>NoSuchObject\<close> stands for a reference outside the store, which no Python
  program can hold.
\<close>
datatype error =
  AssertionError | RecursionError | TypeError | IndexError | ValueError | NoSuchObject

primrec and_then :: "error + 'a \<Rightarrow> ('a \<Rightarrow> error + 'b) \<Rightarrow> error + 'b" where
  "and_then (Inl e) f = Inl e"
| "and_then (Inr x) f = f x"

text \<open>\<open>not v\<close> for an optional int: \<open>None\<close> and \<open>0\<close> are falsy.\<close>
primrec falsy :: "int option \<Rightarrow> bool" where
  "falsy None = True"
| "falsy (Some v) = (v = 0)"

text \<open>\<open>v or d\<close> for an optional int \<open>v\<close> and an int \<open>d\<close>.\<close>
primrec py_or :: "int option \<Rightarrow> int \<Rightarrow> int" where
  "py_or None d = d"
| "py_or (Some v) d = (if v = 0 then d else v)"

text \<open>The classes that override the \<open>width\<close> and \<open>height\<close> properties by a computation
  over the children: \<open>VLayout\<close>, \<open>HLayout\<close> and \<open>Table\<close> (which inherits HLayout's).\<close>
definition derived :: "kind \<Rightarrow> bool" where
  "derived k = (k = VLayout \<or> k = HLayout \<or> k = Table)"

definition write_w :: "heap \<Rightarrow> ref \<Rightarrow> int option \<Rightarrow> heap" where
  "write_w H a v = (case H a of None \<Rightarrow> H | Some ob \<Rightarrow> H(a \<mapsto> ob\<lparr>stored_w := v\<rparr>))"

definition write_h :: "heap \<Rightarrow> ref \<Rightarrow> int option \<Rightarrow> heap" where
  "write_h H a v = (case H a of None \<Rightarrow> H | Some ob \<Rightarrow> H(a \<mapsto> ob\<lparr>stored_h := v\<rparr>))"

text \<open>\<open>self._w\<close> and \<open>self._h\<close> used as an int operand: \<open>None\<close> there is a TypeError.\<close>
definition read_w :: "heap \<Rightarrow> ref \<Rightarrow> error + int" where
  "read_w H a = (case H a of None \<Rightarrow> Inl NoSuchObject
     | Some ob \<Rightarrow> (case stored_w ob of None \<Rightarrow> Inl TypeError | Some v \<Rightarrow> Inr v))"

definition read_h :: "heap \<Rightarrow> ref \<Rightarrow> error + int" where
  "read_h H a = (case H a of None \<Rightarrow> Inl NoSuchObject
     | Some ob \<Rightarrow> (case stored_h ob of None \<Rightarrow> Inl TypeError | Some v \<Rightarrow> Inr v))"

section \<open>The width and height properties\<close>

text \<open>\<open>Object.width\<close> (and TextBox's copy of it): \<open>assert self._w is not None; return self._w\<close>.\<close>
definition Object_width :: "heap \<Rightarrow> ref \<Rightarrow> error + int \<times> heap" where
  "Object_width H a = (case H a of None \<Rightarrow> Inl NoSuchObject
     | Some ob \<Rightarrow> (case stored_w ob of None \<Rightarrow> Inl AssertionError | Some v \<Rightarrow> Inr (v, H)))"

definition Object_height :: "heap \<Rightarrow> ref \<Rightarrow> error + int \<times> heap" where
  "Object_height H a = (case H a of None \<Rightarrow> Inl NoSuchObject
     | Some ob \<Rightarrow> (case stored_h ob of None \<Rightarrow> Inl AssertionError | Some v \<Rightarrow> Inr (v, H)))"

text \<open>
  The loops of the derived getters. \<open>gw\<close> and \<open>gh\<close> are the getters the children are
  read with. In \<open>self._w = max(self._w, obj.width + offx)\<close> Python reads \<open>self._w\<close>
  first, then evaluates \<open>obj.width\<close> (which may write to the heap), then stores.
\<close>
primrec VLayout_width_loop ::
  "(heap \<Rightarrow> ref \<Rightarrow> error + int \<times> heap) \<Rightarrow> ref \<Rightarrow> (ref \<times> point) list \<Rightarrow> heap \<Rightarrow> error + heap" where
  "VLayout_width_loop gw a [] H = Inr H"
| "VLayout_width_loop gw a (ch # rest) H =
     and_then (gw H (fst ch)) (\<lambda>(v, H1).
     and_then (read_w H a) (\<lambda>cur.
     VLayout_width_loop gw a rest (write_w H1 a (Some (max cur (v + fst (snd ch)))))))"

primrec VLayout_height_loop ::
  "(heap \<Rightarrow> ref \<Rightarrow> error + int \<times> heap) \<Rightarrow> ref \<Rightarrow> (ref \<times> point) list \<Rightarrow> heap \<Rightarrow> error + heap" where
  "VLayout_height_loop gh a [] H = Inr H"
| "VLayout_height_loop gh a (ch # rest) H =
     and_then (gh H (fst ch)) (\<lambda>(v, H1).
     and_then (read_h H a) (\<lambda>cur.
     VLayout_height_loop gh a rest (write_h H1 a (Some (cur + (v + snd (snd ch)))))))"

primrec HLayout_width_loop ::
  "(heap \<Rightarrow> ref \<Rightarrow> error + int \<times> heap) \<Rightarrow> ref \<Rightarrow> (ref \<times> point) list \<Rightarrow> heap \<Rightarrow> error + heap" where
  "HLayout_width_loop gw a [] H = Inr H"
| "HLayout_width_loop gw a (ch # rest) H =
     and_then (gw H (fst ch)) (\<lambda>(v, H1).
     and_then (read_w H a) (\<lambda>cur.
     HLayout_width_loop gw a rest (write_w H1 a (Some (cur + (v + fst (snd ch)))))))"

primrec HLayout_height_loop ::
  "(heap \<Rightarrow> ref \<Rightarrow> error + int \<times> heap) \<Rightarrow> ref \<Rightarrow> (ref \<times> point) list \<Rightarrow> heap \<Rightarrow> error + heap" where
  "HLayout_height_loop gh a [] H = Inr H"
| "HLayout_height_loop gh a (ch # rest) H =
     and_then (gh H (fst ch)) (\<lambda>(v, H1).
     and_then (read_h H a) (\<lambda>cur.
     HLayout_height_loop gh a rest (write_h H1 a (Some (max cur (v + snd (snd ch)))))))"

text \<open>\<open>return self._w\<close> at the end of a derived getter.\<close>
definition return_w :: "heap \<Rightarrow> ref \<Rightarrow> error + int \<times> heap" where
  "return_w H a = and_then (read_w H a) (\<lambda>v. Inr (v, H))"

definition return_h :: "heap \<Rightarrow> ref \<Rightarrow> error + int \<times> heap" where
  "return_h H a = and_then (read_h H a) (\<lambda>v. Inr (v, H))"

definition children_of :: "heap \<Rightarrow> ref \<Rightarrow> (ref \<times> point) list" where
  "children_of H a = (case H a of None \<Rightarrow> [] | Some ob \<Rightarrow> children ob)"

definition VLayout_width ::
  "(heap \<Rightarrow> ref \<Rightarrow> error + int \<times> heap) \<Rightarrow> heap \<Rightarrow> ref \<Rightarrow> error + int \<times> heap" where
  "VLayout_width gw H a =
     and_then (VLayout_width_loop gw a (children_of H a) (write_w H a (Some 0)))
       (\<lambda>H'. return_w H' a)"

definition VLayout_height ::
  "(heap \<Rightarrow> ref \<Rightarrow> error + int \<times> heap) \<Rightarrow> heap \<Rightarrow> ref \<Rightarrow> error + int \<times> heap" where
  "VLayout_height gh H a =
     and_then (VLayout_height_loop gh a (children_of H a) (write_h H a (Some 0)))
       (\<lambda>H'. return_h H' a)"

definition HLayout_width ::
  "(heap \<Rightarrow> ref \<Rightarrow> error + int \<times> heap) \<Rightarrow> heap \<Rightarrow> ref \<Rightarrow> error + int \<times> heap" where
  "HLayout_width gw H a =
     and_then (HLayout_width_loop gw a (children_of H a) (write_w H a (Some 0)))
       (\<lambda>H'. return_w H' a)"

definition HLayout_height ::
  "(heap \<Rightarrow> ref \<Rightarrow> error + int \<times> heap) \<Rightarrow> heap \<Rightarrow> ref \<Rightarrow> error + int \<times> heap" where
  "HLayout_height gh H a =
     and_then (HLayout_height_loop gh a (children_of H a) (write_h H a (Some 0)))
       (\<lambda>H'. return_h H' a)"

text \<open>
  Reading \<open>obj.width\<close>: the property of the object's class. The first argument bounds
  the depth of nested calls; a chain that exhausts it ends in \<open>RecursionError\<close>.
\<close>
primrec width :: "nat \<Rightarrow> heap \<Rightarrow> ref \<Rightarrow> error + int \<times> heap" where
  "width 0 H a = Inl RecursionError"
| "width (Suc n) H a = (case H a of None \<Rightarrow> Inl NoSuchObject
     | Some ob \<Rightarrow>
         if kind_of ob = VLayout then VLayout_width (width n) H a
         else if kind_of ob = HLayout \<or> kind_of ob = Table then HLayout_width (width n) H a
         else Object_width H a)"

primrec height :: "nat \<Rightarrow> heap \<Rightarrow> ref \<Rightarrow> error + int \<times> heap" where
  "height 0 H a = Inl RecursionError"
| "height (Suc n) H a = (case H a of None \<Rightarrow> Inl NoSuchObject
     | Some ob \<Rightarrow>
         if kind_of ob = VLayout then VLayout_height (height n) H a
         else if kind_of ob = HLayout \<or> kind_of ob = Table then HLayout_height (height n) H a
         else Object_height H a)"

text \<open>The setters. Every class stores the value; TextBox's height setter also re-centres
  its text: \<open>t, _ = self.children[0]; self.children[0] = (t, P(self.width // 2, self.height // 2))\<close>.\<close>
definition set_width :: "heap \<Rightarrow> ref \<Rightarrow> int \<Rightarrow> error + heap" where
  "set_width H a val = (case H a of None \<Rightarrow> Inl NoSuchObject
     | Some ob \<Rightarrow> Inr (H(a \<mapsto> ob\<lparr>stored_w := Some val\<rparr>)))"

definition TextBox_recenter :: "heap \<Rightarrow> ref \<Rightarrow> error + heap" where
  "TextBox_recenter H a = (case H a of None \<Rightarrow> Inl NoSuchObject
     | Some ob \<Rightarrow>
        (case children ob of [] \<Rightarrow> Inl IndexError
         | ch # rest \<Rightarrow>
             and_then (Object_width H a) (\<lambda>(sw, H1).
             and_then (Object_height H1 a) (\<lambda>(sh, H2).
             Inr (H2(a \<mapsto> ob\<lparr>children := (fst ch, (sw div 2, sh div 2)) # rest\<rparr>))))))"

definition set_height :: "heap \<Rightarrow> ref \<Rightarrow> int \<Rightarrow> error + heap" where
  "set_height H a val = (case H a of None \<Rightarrow> Inl NoSuchObject
     | Some ob \<Rightarrow>
         if kind_of ob = TextBox then TextBox_recenter (H(a \<mapsto> ob\<lparr>stored_h := Some val\<rparr>)) a
         else Inr (H(a \<mapsto> ob\<lparr>stored_h := Some val\<rparr>)))"

text \<open>\<open>Object.add\<close>: append to the children, set the child's parent.\<close>
definition add :: "ref \<Rightarrow> ref \<Rightarrow> point \<Rightarrow> heap \<Rightarrow> error + heap" where
  "add a c pos H = (case H a of None \<Rightarrow> Inl NoSuchObject
     | Some ob \<Rightarrow>
         (let H1 = H(a \<mapsto> ob\<lparr>children := children ob @ [(c, pos)]\<rparr>)
          in case H1 c of None \<Rightarrow> Inl NoSuchObject
             | Some cb \<Rightarrow> Inr (H1(c \<mapsto> cb\<lparr>parent := Some a\<rparr>))))"

section \<open>The renderer\<close>

text \<open>
  \<open>Renderer\<close> is an abstract class. Its observable behaviour is the sequence of calls it
  receives, kept as a list; the answer of \<open>text_bbox\<close> is a function of the text and the
  style (a measurement), given as a parameter of \<open>prepare\<close> and \<open>render\<close>.
\<close>
datatype call =
    call_rectangle point point Style
  | call_text string point Style
  | call_text_bbox string Style
  | call_line fpoint fpoint Style
  | call_set_dimensions point

type_synonym renderer = "string \<Rightarrow> Style \<Rightarrow> int \<times> int \<times> int \<times> int"

text \<open>The state a pass runs in: the objects and the calls the renderer has received.\<close>
type_synonym rstate = "heap \<times> call list"

text \<open>A getter run inside a pass: it changes the heap and leaves the renderer alone.\<close>
definition getter ::
  "(heap \<Rightarrow> ref \<Rightarrow> error + int \<times> heap) \<Rightarrow> rstate \<Rightarrow> ref \<Rightarrow> error + int \<times> rstate" where
  "getter g S c = and_then (g (fst S) c) (\<lambda>(v, H'). Inr (v, (H', snd S)))"

section \<open>prepare\<close>

primrec Object_prepare_loop ::
  "(ref \<Rightarrow> 's \<Rightarrow> error + 's) \<Rightarrow> (ref \<times> point) list \<Rightarrow> 's \<Rightarrow> error + 's" where
  "Object_prepare_loop prep [] S = Inr S"
| "Object_prepare_loop prep (ch # rest) S =
     and_then (prep (fst ch) S) (Object_prepare_loop prep rest)"

text \<open>\<open>Object.prepare\<close>: prepare every child, in order.\<close>
definition Object_prepare ::
  "(ref \<Rightarrow> rstate \<Rightarrow> error + rstate) \<Rightarrow> ref \<Rightarrow> rstate \<Rightarrow> error + rstate" where
  "Object_prepare prep a S = Object_prepare_loop prep (children_of (fst S) a) S"

text \<open>The body of \<open>Text.prepare\<close> after \<open>super().prepare(renderer)\<close>.\<close>
definition Text_measure :: "renderer \<Rightarrow> ref \<Rightarrow> rstate \<Rightarrow> error + rstate" where
  "Text_measure R a S = (case fst S a of None \<Rightarrow> Inl NoSuchObject
     | Some ob \<Rightarrow>
         if falsy (stored_w ob) \<or> falsy (stored_h ob) then
           (case R (text_of ob) (style ob) of (bx0, by0, bx1, by1) \<Rightarrow>
              and_then (set_width (fst S) a (py_or (stored_w ob) bx1)) (\<lambda>H1.
              and_then (set_height H1 a (py_or (stored_h ob) by1)) (\<lambda>H2.
              Inr (H2, snd S @ [call_text_bbox (text_of ob) (style ob)]))))
         else Inr S)"

definition Text_prepare ::
  "(ref \<Rightarrow> rstate \<Rightarrow> error + rstate) \<Rightarrow> renderer \<Rightarrow> ref \<Rightarrow> rstate \<Rightarrow> error + rstate" where
  "Text_prepare prep R a S = and_then (Object_prepare prep a S) (Text_measure R a)"

text \<open>The first loop of \<open>Table.prepare\<close>: \<open>self._h = max(self._h, obj.height)\<close>.\<close>
primrec Table_max_loop ::
  "(heap \<Rightarrow> ref \<Rightarrow> error + int \<times> heap) \<Rightarrow> ref \<Rightarrow> (ref \<times> point) list \<Rightarrow> heap \<Rightarrow> error + heap" where
  "Table_max_loop gh a [] H = Inr H"
| "Table_max_loop gh a (ch # rest) H =
     and_then (gh H (fst ch)) (\<lambda>(v, H1).
     and_then (read_h H a) (\<lambda>cur.
     Table_max_loop gh a rest (write_h H1 a (Some (max cur v)))))"

text \<open>The second loop of \<open>Table.prepare\<close>: \<open>obj.height = self._h\<close>.\<close>
primrec Table_set_loop :: "ref \<Rightarrow> (ref \<times> point) list \<Rightarrow> heap \<Rightarrow> error + heap" where
  "Table_set_loop a [] H = Inr H"
| "Table_set_loop a (ch # rest) H =
     and_then (read_h H a) (\<lambda>m.
     and_then (set_height H (fst ch) m) (Table_set_loop a rest))"

text \<open>The body of \<open>Table.prepare\<close> after \<open>super().prepare(renderer)\<close>.\<close>
definition Table_equalize ::
  "(heap \<Rightarrow> ref \<Rightarrow> error + int \<times> heap) \<Rightarrow> ref \<Rightarrow> heap \<Rightarrow> error + heap" where
  "Table_equalize gh a H =
     and_then (Table_max_loop gh a (children_of H a) (write_h H a (Some 0))) (\<lambda>H1.
     Table_set_loop a (children_of H1 a) H1)"

definition Table_prepare ::
  "(ref \<Rightarrow> rstate \<Rightarrow> error + rstate) \<Rightarrow> (heap \<Rightarrow> ref \<Rightarrow> error + int \<times> heap) \<Rightarrow> ref \<Rightarrow> rstate
     \<Rightarrow> error + rstate" where
  "Table_prepare prep gh a S =
     and_then (Object_prepare prep a S) (\<lambda>S1.
     and_then (Table_equalize gh a (fst S1)) (\<lambda>H2. Inr (H2, snd S1)))"

text \<open>\<open>obj.prepare(renderer)\<close>: Text and Table override it, every other class inherits
  \<open>Object.prepare\<close>.\<close>
primrec prepare :: "nat \<Rightarrow> renderer \<Rightarrow> ref \<Rightarrow> rstate \<Rightarrow> error + rstate" where
  "prepare 0 R a S = Inl RecursionError"
| "prepare (Suc n) R a S = (case fst S a of None \<Rightarrow> Inl NoSuchObject
     | Some ob \<Rightarrow>
         if kind_of ob = Text then Text_prepare (prepare n R) R a S
         else if kind_of ob = Table then Table_prepare (prepare n R) (height n) a S
         else Object_prepare (prepare n R) a S)"

section \<open>render\<close>

text \<open>
  The loops take the calls they make on a child as parameters: \<open>rend\<close> is
  \<open>obj.render(renderer, pos)\<close>, \<open>gw\<close> and \<open>gh\<close> are \<open>obj.width\<close> and
  \<open>obj.height\<close>, \<open>prep\<close> is \<open>obj.prepare(renderer)\<close>.
\<close>

text \<open>\<open>Object.render\<close>: \<open>obj.render(renderer, P(x + offx, y + offy))\<close> for every child.\<close>
primrec Object_render_loop ::
  "(ref \<Rightarrow> point \<Rightarrow> 's \<Rightarrow> error + 's) \<Rightarrow> int \<Rightarrow> int \<Rightarrow> (ref \<times> point) list \<Rightarrow> 's \<Rightarrow> error + 's" where
  "Object_render_loop rend x y [] S = Inr S"
| "Object_render_loop rend x y (ch # rest) S =
     (case ch of (c, offx, offy) \<Rightarrow>
        and_then (rend c (x + offx, y + offy) S) (Object_render_loop rend x y rest))"

definition Object_render ::
  "(ref \<Rightarrow> point \<Rightarrow> rstate \<Rightarrow> error + rstate) \<Rightarrow> ref \<Rightarrow> point \<Rightarrow> rstate \<Rightarrow> error + rstate" where
  "Object_render rend a pos S =
     Object_render_loop rend (fst pos) (snd pos) (children_of (fst S) a) S"

text \<open>The loop of \<open>VLayout.render\<close>; \<open>y\<close> is the running cursor.\<close>
primrec VLayout_render_loop ::
  "('s \<Rightarrow> ref \<Rightarrow> error + int \<times> 's) \<Rightarrow> ('s \<Rightarrow> ref \<Rightarrow> error + int \<times> 's) \<Rightarrow>
   (ref \<Rightarrow> point \<Rightarrow> 's \<Rightarrow> error + 's) \<Rightarrow> int \<Rightarrow> int \<Rightarrow> int \<Rightarrow> (ref \<times> point) list \<Rightarrow> 's \<Rightarrow> error + 's" where
  "VLayout_render_loop gw gh rend x centerx y [] S = Inr S"
| "VLayout_render_loop gw gh rend x centerx y (ch # rest) S =
     (case ch of (c, offx, offy) \<Rightarrow>
        (let obj_posx = x + offx in
         and_then (gw S c) (\<lambda>(ow, S1).
           (let obj_centerx = obj_posx + ow div 2 in
            and_then (rend c (obj_posx + centerx - obj_centerx, y + offy) S1) (\<lambda>S2.
            and_then (gh S2 c) (\<lambda>(oh, S3).
            VLayout_render_loop gw gh rend x centerx (y + (oh + offy)) rest S3))))))"

definition VLayout_render ::
  "(rstate \<Rightarrow> ref \<Rightarrow> error + int \<times> rstate) \<Rightarrow> (rstate \<Rightarrow> ref \<Rightarrow> error + int \<times> rstate) \<Rightarrow>
   (ref \<Rightarrow> point \<Rightarrow> rstate \<Rightarrow> error + rstate) \<Rightarrow> ref \<Rightarrow> point \<Rightarrow> rstate \<Rightarrow> error + rstate" where
  "VLayout_render gw gh rend a pos S =
     and_then (gw S a) (\<lambda>(sw, S0).
       VLayout_render_loop gw gh rend (fst pos) (fst pos + sw div 2) (snd pos)
         (children_of (fst S0) a) S0)"

text \<open>The loop of \<open>HLayout.render\<close>; \<open>x\<close> is the running cursor.\<close>
primrec HLayout_render_loop ::
  "('s \<Rightarrow> ref \<Rightarrow> error + int \<times> 's) \<Rightarrow> (ref \<Rightarrow> point \<Rightarrow> 's \<Rightarrow> error + 's) \<Rightarrow>
   int \<Rightarrow> int \<Rightarrow> (ref \<times> point) list \<Rightarrow> 's \<Rightarrow> error + 's" where
  "HLayout_render_loop gw rend x y [] S = Inr S"
| "HLayout_render_loop gw rend x y (ch # rest) S =
     (case ch of (c, offx, offy) \<Rightarrow>
        and_then (rend c (x + offx, y + offy) S) (\<lambda>S1.
        and_then (gw S1 c) (\<lambda>(ow, S2).
        HLayout_render_loop gw rend (x + (ow + offx)) y rest S2)))"

definition HLayout_render ::
  "(rstate \<Rightarrow> ref \<Rightarrow> error + int \<times> rstate) \<Rightarrow> (ref \<Rightarrow> point \<Rightarrow> rstate \<Rightarrow> error + rstate) \<Rightarrow>
   ref \<Rightarrow> point \<Rightarrow> rstate \<Rightarrow> error + rstate" where
  "HLayout_render gw rend a pos S =
     HLayout_render_loop gw rend (fst pos) (snd pos) (children_of (fst S) a) S"

text \<open>\<open>Rectangle.render\<close> (TextBox inherits it):
  \<open>renderer.rectangle((x, y), (x + self._w, y + self._h), self.style)\<close>, then the children.\<close>
definition Rectangle_render ::
  "(ref \<Rightarrow> point \<Rightarrow> rstate \<Rightarrow> error + rstate) \<Rightarrow> ref \<Rightarrow> point \<Rightarrow> rstate \<Rightarrow> error + rstate" where
  "Rectangle_render rend a pos S = (case fst S a of None \<Rightarrow> Inl NoSuchObject
     | Some ob \<Rightarrow>
         and_then (read_w (fst S) a) (\<lambda>sw.
         and_then (read_h (fst S) a) (\<lambda>sh.
         Object_render rend a pos
           (fst S, snd S @ [call_rectangle pos (fst pos + sw, snd pos + sh) (style ob)]))))"

text \<open>\<open>Line.render\<close>: one segment, no children.\<close>
definition Line_render :: "ref \<Rightarrow> point \<Rightarrow> rstate \<Rightarrow> error + rstate" where
  "Line_render a pos S = (case fst S a of None \<Rightarrow> Inl NoSuchObject
     | Some ob \<Rightarrow>
         Inr (fst S, snd S @ [call_line (to_f (P_add (line_start ob) pos))
                                         (to_f (P_add (line_end ob) pos)) (style ob)]))"

text \<open>\<open>len(range(0, stop, step))\<close> for a step other than 0.\<close>
definition range_len :: "int \<Rightarrow> int \<Rightarrow> nat" where
  "range_len stop step =
     (if 0 < step \<and> 0 < stop then nat (1 + (stop - 1) div step)
      else if step < 0 \<and> stop < 0 then nat (1 + (- stop - 1) div (- step))
      else 0)"

text \<open>The loop of \<open>DottedLine.render\<close>, run \<open>k\<close> times from the cursor \<open>xy1\<close>.\<close>
primrec DottedLine_loop :: "nat \<Rightarrow> fpoint \<Rightarrow> int \<Rightarrow> Style \<Rightarrow> fpoint \<Rightarrow> call list \<Rightarrow> call list" where
  "DottedLine_loop 0 u d st xy1 L = L"
| "DottedLine_loop (Suc k) u d st xy1 L =
     (let xy2 = F_add xy1 (F_scale u (of_int (d div 2)))
      in DottedLine_loop k u d st (F_add xy1 (F_scale u (of_int d))) (L @ [call_line xy1 xy2 st]))"

text \<open>The segment length \<open>((end.x - start.x)**2 + (end.y - start.y)**2)**0.5\<close>.\<close>
definition segment_length :: "point \<Rightarrow> point \<Rightarrow> real" where
  "segment_length s e = sqrt (of_int ((fst e - fst s)\<^sup>2 + (snd e - snd s)\<^sup>2))"

text \<open>The direction \<open>u\<close> of \<open>DottedLine.render\<close>.\<close>
definition direction :: "point \<Rightarrow> point \<Rightarrow> fpoint" where
  "direction s e =
     (if fst e \<noteq> fst s then F_div (to_f (P_sub e s)) (segment_length s e) else (0, 1))"

definition DottedLine_render :: "ref \<Rightarrow> point \<Rightarrow> rstate \<Rightarrow> error + rstate" where
  "DottedLine_render a pos S = (case fst S a of None \<Rightarrow> Inl NoSuchObject
     | Some ob \<Rightarrow>
         if dash_len ob = 0 then Inl ValueError
         else Inr (fst S,
           DottedLine_loop
             (range_len \<lfloor>segment_length (line_start ob) (line_end ob)\<rfloor> (dash_len ob))
             (direction (line_start ob) (line_end ob)) (dash_len ob) (style ob)
             (to_f (P_add (line_start ob) pos)) (snd S)))"

text \<open>\<open>Arrow.render\<close>: the segment, the two strokes at the end and, when double sided,
  two at the start.\<close>
definition Arrow_render :: "ref \<Rightarrow> point \<Rightarrow> rstate \<Rightarrow> error + rstate" where
  "Arrow_render a pos S = (case fst S a of None \<Rightarrow> Inl NoSuchObject
     | Some ob \<Rightarrow>
        (let s = line_start ob; e = line_end ob; k = alen ob; st = style ob;
             L1 = snd S @
               [call_line (to_f (P_add s pos)) (to_f (P_add e pos)) st,
                call_line (to_f (P_add pos e)) (to_f (P_sub_scalar (P_add pos e) k)) st,
                call_line (to_f (P_add pos e)) (to_f (P_add (P_add pos e) (- k, k))) st];
             L2 = (if double_sided ob then
                     L1 @ [call_line (to_f (P_add pos s)) (to_f (P_add (P_add pos s) (k, - k))) st,
                           call_line (to_f (P_add pos s)) (to_f (P_add_scalar (P_add pos s) k)) st]
                   else L1)
         in Inr (fst S, L2)))"

text \<open>\<open>Text.render\<close>: \<open>self.align == "right"\<close> holds for \<open>Align.RIGHT\<close> only.\<close>
definition Text_render :: "ref \<Rightarrow> point \<Rightarrow> rstate \<Rightarrow> error + rstate" where
  "Text_render a pos S = (case fst S a of None \<Rightarrow> Inl NoSuchObject
     | Some ob \<Rightarrow>
         if align ob = RIGHT then
           and_then (Object_width (fst S) a) (\<lambda>(sw, H1).
             Inr (H1, snd S @ [call_text (text_of ob) (P_add pos (sw, 0))
                                         ((style ob)\<lparr>anchor := TOP_RIGHT\<rparr>)]))
         else Inr (fst S, snd S @ [call_text (text_of ob) pos (style ob)]))"

text \<open>The loop of \<open>Canvas.render\<close>; \<open>pos\<close> is the position already moved by the padding.\<close>
primrec Canvas_render_loop ::
  "(ref \<Rightarrow> rstate \<Rightarrow> error + rstate) \<Rightarrow> (ref \<Rightarrow> point \<Rightarrow> rstate \<Rightarrow> error + rstate) \<Rightarrow>
   (heap \<Rightarrow> ref \<Rightarrow> error + int \<times> heap) \<Rightarrow> (heap \<Rightarrow> ref \<Rightarrow> error + int \<times> heap) \<Rightarrow>
   ref \<Rightarrow> point \<Rightarrow> (ref \<times> point) list \<Rightarrow> rstate \<Rightarrow> error + rstate" where
  "Canvas_render_loop prep rend gw gh a pos [] S = Inr S"
| "Canvas_render_loop prep rend gw gh a pos (ch # rest) S =
     (case ch of (c, offset) \<Rightarrow>
        and_then (prep c S) (\<lambda>S1.
        and_then (rend c (P_add pos offset) S1) (\<lambda>S2.
        and_then (Object_width (fst S2) a) (\<lambda>(sw, H3).
        and_then (gw H3 c) (\<lambda>(ow, H4).
        and_then (set_width H4 a (max sw (ow + fst (P_add offset pos)))) (\<lambda>H5.
        and_then (Object_height H5 a) (\<lambda>(sh, H6).
        and_then (gh H6 c) (\<lambda>(oh, H7).
        and_then (set_height H7 a (max sh (oh + snd (P_add offset pos)))) (\<lambda>H8.
        Canvas_render_loop prep rend gw gh a pos rest (H8, snd S2))))))))))"

definition Canvas_render ::
  "(ref \<Rightarrow> rstate \<Rightarrow> error + rstate) \<Rightarrow> (ref \<Rightarrow> point \<Rightarrow> rstate \<Rightarrow> error + rstate) \<Rightarrow>
   (heap \<Rightarrow> ref \<Rightarrow> error + int \<times> heap) \<Rightarrow> (heap \<Rightarrow> ref \<Rightarrow> error + int \<times> heap) \<Rightarrow>
   ref \<Rightarrow> point \<Rightarrow> rstate \<Rightarrow> error + rstate" where
  "Canvas_render prep rend gw gh a pos S = (case fst S a of None \<Rightarrow> Inl NoSuchObject
     | Some ob \<Rightarrow>
         and_then (set_width (fst S) a (padding (style ob))) (\<lambda>H1.
         and_then (set_height H1 a (padding (style ob))) (\<lambda>H2.
         and_then (Canvas_render_loop prep rend gw gh a (P_add_scalar pos (padding (style ob)))
                     (children_of H2 a) (H2, snd S)) (\<lambda>S3.
         and_then (Object_width (fst S3) a) (\<lambda>(sw, H4).
         and_then (set_width H4 a (sw + padding (style ob))) (\<lambda>H5.
         and_then (Object_height H5 a) (\<lambda>(sh, H6).
         and_then (set_height H6 a (sh + padding (style ob))) (\<lambda>H7.
         and_then (Object_width H7 a) (\<lambda>(fw, H8).
         and_then (Object_height H8 a) (\<lambda>(fh, H9).
         Inr (H9, snd S3 @ [call_set_dimensions (fw, fh)])))))))))))"

text \<open>\<open>obj.render(renderer, pos)\<close>, by the class of the object. Spacer and the base class
  use \<open>Object.render\<close>; Table inherits HLayout's; TextBox's calls Rectangle's.\<close>
primrec render :: "nat \<Rightarrow> renderer \<Rightarrow> ref \<Rightarrow> point \<Rightarrow> rstate \<Rightarrow> error + rstate" where
  "render 0 R a pos S = Inl RecursionError"
| "render (Suc n) R a pos S = (case fst S a of None \<Rightarrow> Inl NoSuchObject
     | Some ob \<Rightarrow>
         if kind_of ob = VLayout then
           VLayout_render (getter (width n)) (getter (height n)) (render n R) a pos S
         else if kind_of ob = HLayout \<or> kind_of ob = Table then
           HLayout_render (getter (width n)) (render n R) a pos S
         else if kind_of ob = Rectangle \<or> kind_of ob = TextBox then
           Rectangle_render (render n R) a pos S
         else if kind_of ob = Line then Line_render a pos S
         else if kind_of ob = DottedLine then DottedLine_render a pos S
         else if kind_of ob = Arrow then Arrow_render a pos S
         else if kind_of ob = Text then Text_render a pos S
         else if kind_of ob = Canvas then
           Canvas_render (prepare n R) (render n R) (width n) (height n) a pos S
         else Object_render (render n R) a pos S)"

section \<open>Constructors and the default style\<close>

text \<open>\<open>set_style(style)\<close>: rebinds the global \<open>default_style\<close>.\<close>
definition set_style :: "Style \<Rightarrow> world \<Rightarrow> world" where
  "set_style s W = W\<lparr>default_style := s\<rparr>"

text \<open>
  \<open>Object.__init__(self, width=None, height=None, style=None, **kwargs)\<close> on a new
  object of class \<open>k\<close>. A Style is a non-empty tuple, so \<open>not style\<close> holds for
  \<open>None\<close> only. The keyword arguments left over are the fields \<open>_replace\<close> overrides.
\<close>
definition Object_init ::
  "kind \<Rightarrow> int option \<Rightarrow> int option \<Rightarrow> Style option \<Rightarrow> style_kw list \<Rightarrow> world \<Rightarrow> ref \<times> world" where
  "Object_init k width0 height0 style0 kwargs W =
     (let style1 = (case style0 of None \<Rightarrow> default_style W | Some s \<Rightarrow> s);
          style2 = (if kwargs \<noteq> [] then Style_replace style1 kwargs else style1);
          a = next_ref W
      in (a, W\<lparr>heap := (heap W)(a \<mapsto>
                \<lparr>kind_of = k, stored_w = width0, stored_h = height0, style = style2,
                 children = [], parent = None, align = CENTER, line_start = (0, 0),
                 line_end = (0, 0), dash_len = 0, double_sided = False, alen = 0,
                 text_of = []\<rparr>),
              next_ref := Suc a\<rparr>))"

text \<open>An attribute assignment in a constructor body.\<close>
definition modify :: "ref \<Rightarrow> (obj \<Rightarrow> obj) \<Rightarrow> world \<Rightarrow> world" where
  "modify a f W = (case heap W a of None \<Rightarrow> W | Some ob \<Rightarrow> W\<lparr>heap := (heap W)(a \<mapsto> f ob)\<rparr>)"

definition new_Object ::
  "int option \<Rightarrow> int option \<Rightarrow> Style option \<Rightarrow> style_kw list \<Rightarrow> world \<Rightarrow> ref \<times> world" where
  "new_Object width0 height0 style0 kwargs W = Object_init Object width0 height0 style0 kwargs W"

definition new_VLayout ::
  "Align \<Rightarrow> int option \<Rightarrow> int option \<Rightarrow> Style option \<Rightarrow> style_kw list \<Rightarrow> world \<Rightarrow> ref \<times> world" where
  "new_VLayout al width0 height0 style0 kwargs W =
     (case Object_init VLayout width0 height0 style0 kwargs W of
        (a, W1) \<Rightarrow> (a, modify a (\<lambda>ob. ob\<lparr>align := al\<rparr>) W1))"

definition new_HLayout ::
  "Align \<Rightarrow> int option \<Rightarrow> int option \<Rightarrow> Style option \<Rightarrow> style_kw list \<Rightarrow> world \<Rightarrow> ref \<times> world" where
  "new_HLayout al width0 height0 style0 kwargs W =
     (case Object_init HLayout width0 height0 style0 kwargs W of
        (a, W1) \<Rightarrow> (a, modify a (\<lambda>ob. ob\<lparr>align := al\<rparr>) W1))"

definition new_Table ::
  "Align \<Rightarrow> int option \<Rightarrow> int option \<Rightarrow> Style option \<Rightarrow> style_kw list \<Rightarrow> world \<Rightarrow> ref \<times> world" where
  "new_Table al width0 height0 style0 kwargs W =
     (case Object_init Table width0 height0 style0 kwargs W of
        (a, W1) \<Rightarrow> (a, modify a (\<lambda>ob. ob\<lparr>align := al\<rparr>) W1))"

definition new_Rectangle ::
  "int option \<Rightarrow> int option \<Rightarrow> Style option \<Rightarrow> style_kw list \<Rightarrow> world \<Rightarrow> ref \<times> world" where
  "new_Rectangle width0 height0 style0 kwargs W =
     Object_init Rectangle width0 height0 style0 kwargs W"

definition new_Canvas ::
  "int option \<Rightarrow> int option \<Rightarrow> Style option \<Rightarrow> style_kw list \<Rightarrow> world \<Rightarrow> ref \<times> world" where
  "new_Canvas width0 height0 style0 kwargs W = Object_init Canvas width0 height0 style0 kwargs W"

text \<open>\<open>Line.__init__(self, *, end, start=P(0, 0), **kwargs)\<close> for Line and its subclasses:
  width and height are \<open>max(start.x, end.x)\<close> and \<open>max(start.y, end.y)\<close>.\<close>
definition Line_init ::
  "kind \<Rightarrow> point \<Rightarrow> point \<Rightarrow> Style option \<Rightarrow> style_kw list \<Rightarrow> world \<Rightarrow> ref \<times> world" where
  "Line_init k e s style0 kwargs W =
     (case Object_init k (Some (max (fst s) (fst e))) (Some (max (snd s) (snd e))) style0 kwargs W of
        (a, W1) \<Rightarrow> (a, modify a (\<lambda>ob. ob\<lparr>line_start := s, line_end := e\<rparr>) W1))"

definition new_Line ::
  "point \<Rightarrow> point \<Rightarrow> Style option \<Rightarrow> style_kw list \<Rightarrow> world \<Rightarrow> ref \<times> world" where
  "new_Line e s style0 kwargs W = Line_init Line e s style0 kwargs W"

definition new_DottedLine ::
  "int \<Rightarrow> point \<Rightarrow> point \<Rightarrow> Style option \<Rightarrow> style_kw list \<Rightarrow> world \<Rightarrow> ref \<times> world" where
  "new_DottedLine d e s style0 kwargs W =
     (case Line_init DottedLine e s style0 kwargs W of
        (a, W1) \<Rightarrow> (a, modify a (\<lambda>ob. ob\<lparr>dash_len := d\<rparr>) W1))"

definition new_Arrow ::
  "bool \<Rightarrow> int \<Rightarrow> point \<Rightarrow> point \<Rightarrow> Style option \<Rightarrow> style_kw list \<Rightarrow> world \<Rightarrow> ref \<times> world" where
  "new_Arrow ds k e s style0 kwargs W =
     (case Line_init Arrow e s style0 kwargs W of
        (a, W1) \<Rightarrow> (a, modify a (\<lambda>ob. ob\<lparr>double_sided := ds, alen := k\<rparr>) W1))"

text \<open>\<open>Spacer.__init__\<close>: \<open>self.width = self._w or self.style.padding\<close>, and the same
  for the height.\<close>
definition new_Spacer ::
  "int option \<Rightarrow> int option \<Rightarrow> Style option \<Rightarrow> style_kw list \<Rightarrow> world \<Rightarrow> ref \<times> world" where
  "new_Spacer width0 height0 style0 kwargs W =
     (case Object_init Spacer width0 height0 style0 kwargs W of
        (a, W1) \<Rightarrow>
          (a, modify a (\<lambda>ob. ob\<lparr>stored_h := Some (py_or (stored_h ob) (padding (style ob)))\<rparr>)
                (modify a (\<lambda>ob. ob\<lparr>stored_w := Some (py_or (stored_w ob) (padding (style ob)))\<rparr>)
                   W1)))"

definition new_Text ::
  "string \<Rightarrow> Align \<Rightarrow> int option \<Rightarrow> int option \<Rightarrow> Style option \<Rightarrow> style_kw list \<Rightarrow> world
     \<Rightarrow> ref \<times> world" where
  "new_Text t al width0 height0 style0 kwargs W =
     (case Object_init Text width0 height0 style0 kwargs W of
        (a, W1) \<Rightarrow> (a, modify a (\<lambda>ob. ob\<lparr>text_of := t, align := al\<rparr>) W1))"

text \<open>\<open>TextBox.__init__(self, text, align=Anchor.MIDDLE_MIDDLE, **kwargs)\<close>: reads its own
  width and height (an assertion fails when one was not given) and adds a Text child.\<close>
definition new_TextBox ::
  "string \<Rightarrow> Anchor \<Rightarrow> int option \<Rightarrow> int option \<Rightarrow> Style option \<Rightarrow> style_kw list \<Rightarrow> world
     \<Rightarrow> error + ref \<times> world" where
  "new_TextBox t al width0 height0 style0 kwargs W =
     (case Object_init TextBox width0 height0 style0 kwargs W of
        (a, W1) \<Rightarrow>
          and_then (Object_width (heap W1) a) (\<lambda>(sw, H1).
          and_then (Object_height H1 a) (\<lambda>(sh, H2).
            (let st = (case heap W1 a of None \<Rightarrow> default_style W1 | Some ob \<Rightarrow> style ob);
                 st' = (if al = MIDDLE_MIDDLE then st\<lparr>anchor := MIDDLE_MIDDLE\<rparr> else st);
                 pos = (if al = MIDDLE_MIDDLE then (sw div 2, sh div 2) else (0, 0))
             in (case new_Text t LEFT (Some sw) (Some sh) (Some st') [] W1 of
                   (c, W2) \<Rightarrow>
                     and_then (add a c pos (heap W2)) (\<lambda>H3. Inr (a, W2\<lparr>heap := H3\<rparr>)))))))"

text \<open>A constructor call \<open>Cls(width=..., height=..., style=..., **kwargs)\<close>: the class
  with its own arguments. The Line classes compute width and height themselves, so passing
  one of them is a TypeError (two values for one keyword).\<close>
datatype ctor =
    mk_Object | mk_VLayout Align | mk_HLayout Align | mk_Table Align | mk_Rectangle
  | mk_Canvas | mk_Spacer | mk_Text string Align | mk_TextBox string Anchor
  | mk_Line point point | mk_DottedLine int point point | mk_Arrow bool int point point

primrec construct ::
  "ctor \<Rightarrow> int option \<Rightarrow> int option \<Rightarrow> Style option \<Rightarrow> style_kw list \<Rightarrow> world
     \<Rightarrow> error + ref \<times> world" where
  "construct mk_Object w0 h0 st kw W = Inr (new_Object w0 h0 st kw W)"
| "construct (mk_VLayout al) w0 h0 st kw W = Inr (new_VLayout al w0 h0 st kw W)"
| "construct (mk_HLayout al) w0 h0 st kw W = Inr (new_HLayout al w0 h0 st kw W)"
| "construct (mk_Table al) w0 h0 st kw W = Inr (new_Table al w0 h0 st kw W)"
| "construct mk_Rectangle w0 h0 st kw W = Inr (new_Rectangle w0 h0 st kw W)"
| "construct mk_Canvas w0 h0 st kw W = Inr (new_Canvas w0 h0 st kw W)"
| "construct mk_Spacer w0 h0 st kw W = Inr (new_Spacer w0 h0 st kw W)"
| "construct (mk_Text t al) w0 h0 st kw W = Inr (new_Text t al w0 h0 st kw W)"
| "construct (mk_TextBox t al) w0 h0 st kw W = new_TextBox t al w0 h0 st kw W"
| "construct (mk_Line e s) w0 h0 st kw W =
     (if w0 = None \<and> h0 = None then Inr (new_Line e s st kw W) else Inl TypeError)"
| "construct (mk_DottedLine d e s) w0 h0 st kw W =
     (if w0 = None \<and> h0 = None then Inr (new_DottedLine d e s st kw W) else Inl TypeError)"
| "construct (mk_Arrow ds k e s) w0 h0 st kw W =
     (if w0 = None \<and> h0 = None then Inr (new_Arrow ds k e s st kw W) else Inl TypeError)"

text \<open>\<open>node.style\<close> of the object at a reference.\<close>
definition node_style :: "world \<Rightarrow> ref \<Rightarrow> Style option" where
  "node_style W a = map_option style (heap W a)"

text \<open>The style \<open>Object.__init__\<close> computes from its \<open>style\<close> argument, the keyword
  overrides and the default style of the moment.\<close>
definition captured :: "Style option \<Rightarrow> style_kw list \<Rightarrow> world \<Rightarrow> Style" where
  "captured st kw W = (let s1 = (case st of None \<Rightarrow> default_style W | Some s \<Rightarrow> s)
                       in if kw \<noteq> [] then Style_replace s1 kw else s1)"

text \<open>What a constructor call does to the module state: the new object sits at the next
  fresh reference with the captured style, older objects and the default style are untouched.\<close>
definition built :: "Style option \<Rightarrow> style_kw list \<Rightarrow> world \<Rightarrow> ref \<Rightarrow> world \<Rightarrow> bool" where
  "built st kw W a W1 =
     (a = next_ref W \<and> next_ref W < next_ref W1 \<and> default_style W1 = default_style W \<and>
      (\<forall>b. b < next_ref W \<longrightarrow> heap W1 b = heap W b) \<and>
      node_style W1 a = Some (captured st kw W))"

text \<open>The \<open>right\<close> and \<open>bottom\<close> entries of the tuple \<open>text_bbox\<close> returns.\<close>
definition bbox_right :: "int \<times> int \<times> int \<times> int \<Rightarrow> int" where
  "bbox_right bb = fst (snd (snd bb))"

definition bbox_bottom :: "int \<times> int \<times> int \<times> int \<Rightarrow> int" where
  "bbox_bottom bb = snd (snd (snd bb))"

text \<open>The Text object after the body of \<open>Text.prepare\<close>, and the calls that body makes on
  the renderer.\<close>
definition measured :: "renderer \<Rightarrow> obj \<Rightarrow> obj" where
  "measured R ob =
     (if falsy (stored_w ob) \<or> falsy (stored_h ob) then
        ob\<lparr>stored_w := Some (py_or (stored_w ob) (bbox_right (R (text_of ob) (style ob)))),
           stored_h := Some (py_or (stored_h ob) (bbox_bottom (R (text_of ob) (style ob))))\<rparr>
      else ob)"

definition bbox_calls :: "obj \<Rightarrow> call list" where
  "bbox_calls ob =
     (if falsy (stored_w ob) \<or> falsy (stored_h ob) then [call_text_bbox (text_of ob) (style ob)]
      else [])"


text \<open>Recording stand-ins for the calls a render loop makes on a child: a getter that answers
  from a table and leaves the state alone, and a \<open>render\<close> that only notes which child
  was asked to render at which position. Run with them, a loop returns its sequence of
  \<open>obj.render(renderer, pos)\<close> calls.\<close>
definition rec_get :: "(ref \<Rightarrow> int) \<Rightarrow> 't \<Rightarrow> ref \<Rightarrow> error + int \<times> 't" where
  "rec_get f T c = Inr (f c, T)"

definition rec_render :: "ref \<Rightarrow> point \<Rightarrow> (ref \<times> point) list \<Rightarrow> error + (ref \<times> point) list" where
  "rec_render c p T = Inr (T @ [(c, p)])"

text \<open>The placements the specification gives for a vertical stack around the centre
  \<open>centerx\<close>: each child's centre is the layout's centre, the cursor \<open>y\<close> advances by the
  child's height plus its y offset.\<close>
primrec VLayout_places ::
  "(ref \<Rightarrow> int) \<Rightarrow> (ref \<Rightarrow> int) \<Rightarrow> int \<Rightarrow> int \<Rightarrow> (ref \<times> point) list \<Rightarrow> (ref \<times> point) list" where
  "VLayout_places wv hv centerx y [] = []"
| "VLayout_places wv hv centerx y (ch # rest) =
     (fst ch, (centerx - wv (fst ch) div 2, y + snd (snd ch)))
       # VLayout_places wv hv centerx (y + (hv (fst ch) + snd (snd ch))) rest"

text \<open>The placements the specification gives for a horizontal stack: each child at the cursor
  plus its offset, the cursor \<open>x\<close> advancing by the child's width plus its x offset.\<close>
primrec HLayout_places ::
  "(ref \<Rightarrow> int) \<Rightarrow> int \<Rightarrow> int \<Rightarrow> (ref \<times> point) list \<Rightarrow> (ref \<times> point) list" where
  "HLayout_places wv x y [] = []"
| "HLayout_places wv x y (ch # rest) =
     (fst ch, (x + fst (snd ch), y + snd (snd ch)))
       # HLayout_places wv (x + (wv (fst ch) + fst (snd ch))) y rest"


text \<open>The arguments of the \<open>set_dimensions\<close> calls among the calls a renderer received.\<close>
primrec set_dimensions_calls :: "call list \<Rightarrow> point list" where
  "set_dimensions_calls [] = []"
| "set_dimensions_calls (c # cs) =
     (case c of call_set_dimensions d \<Rightarrow> d # set_dimensions_calls cs | _ \<Rightarrow> set_dimensions_calls cs)"

text \<open>The value a getter returns, without the heap it leaves.\<close>
primrec value_of :: "error + int \<times> heap \<Rightarrow> error + int" where
  "value_of (Inl e) = Inl e"
| "value_of (Inr r) = Inr (fst r)"

text \<open>The two getters have one shape. For the proofs both are instances of one definition,
  \<open>dimension\<close>, indexed by the axis (\<open>X\<close> for width, \<open>Y\<close> for height); \<open>width\<close> and
  \<open>height\<close> above are proved equal to it.\<close>
datatype axis = X | Y

primrec stored :: "axis \<Rightarrow> obj \<Rightarrow> int option" where
  "stored X ob = stored_w ob"
| "stored Y ob = stored_h ob"

primrec along :: "axis \<Rightarrow> point \<Rightarrow> int" where
  "along X p = fst p"
| "along Y p = snd p"

primrec write_dim :: "axis \<Rightarrow> heap \<Rightarrow> ref \<Rightarrow> int option \<Rightarrow> heap" where
  "write_dim X = write_w"
| "write_dim Y = write_h"

primrec read_dim :: "axis \<Rightarrow> heap \<Rightarrow> ref \<Rightarrow> error + int" where
  "read_dim X = read_w"
| "read_dim Y = read_h"

primrec set_stored :: "axis \<Rightarrow> int option \<Rightarrow> obj \<Rightarrow> obj" where
  "set_stored X v ob = ob\<lparr>stored_w := v\<rparr>"
| "set_stored Y v ob = ob\<lparr>stored_h := v\<rparr>"

text \<open>How a stacking class combines its children on an axis: VLayout takes the maximum of
  the widths and the sum of the heights, HLayout and Table the sum of the widths and the
  maximum of the heights.\<close>
definition combine :: "axis \<Rightarrow> kind \<Rightarrow> int \<Rightarrow> int \<Rightarrow> int" where
  "combine ax k = (if (ax = X) = (k = VLayout) then max else (+))"

primrec dim_loop ::
  "(int \<Rightarrow> int \<Rightarrow> int) \<Rightarrow> axis \<Rightarrow> (heap \<Rightarrow> ref \<Rightarrow> error + int \<times> heap) \<Rightarrow> ref \<Rightarrow>
   (ref \<times> point) list \<Rightarrow> heap \<Rightarrow> error + heap" where
  "dim_loop f ax g a [] H = Inr H"
| "dim_loop f ax g a (ch # rest) H =
     and_then (g H (fst ch)) (\<lambda>(v, H1).
     and_then (read_dim ax H a) (\<lambda>cur.
     dim_loop f ax g a rest (write_dim ax H1 a (Some (f cur (v + along ax (snd ch)))))))"

primrec dimension :: "nat \<Rightarrow> axis \<Rightarrow> heap \<Rightarrow> ref \<Rightarrow> error + int \<times> heap" where
  "dimension 0 ax H a = Inl RecursionError"
| "dimension (Suc n) ax H a = (case H a of None \<Rightarrow> Inl NoSuchObject
     | Some ob \<Rightarrow>
         if derived (kind_of ob) then
           and_then (dim_loop (combine ax (kind_of ob)) ax (dimension n ax) a (children_of H a)
                       (write_dim ax H a (Some 0)))
             (\<lambda>H'. and_then (read_dim ax H' a) (\<lambda>v. Inr (v, H')))
         else (case stored ax ob of None \<Rightarrow> Inl AssertionError | Some v \<Rightarrow> Inr (v, H)))"

text \<open>The specification's reading of a derived dimension: a pure fold over the children's
  dimensions plus offsets, starting from 0, with no heap written.\<close>
primrec fold_children ::
  "(int \<Rightarrow> int \<Rightarrow> int) \<Rightarrow> axis \<Rightarrow> (ref \<Rightarrow> error + int) \<Rightarrow> (ref \<times> point) list \<Rightarrow> int \<Rightarrow> error + int" where
  "fold_children f ax s [] acc = Inr acc"
| "fold_children f ax s (ch # rest) acc =
     and_then (s (fst ch)) (\<lambda>v. fold_children f ax s rest (f acc (v + along ax (snd ch))))"

primrec spec_dim :: "nat \<Rightarrow> axis \<Rightarrow> heap \<Rightarrow> ref \<Rightarrow> error + int" where
  "spec_dim 0 ax H a = Inl RecursionError"
| "spec_dim (Suc n) ax H a = (case H a of None \<Rightarrow> Inl NoSuchObject
     | Some ob \<Rightarrow>
         if derived (kind_of ob) then
           fold_children (combine ax (kind_of ob)) ax (spec_dim n ax H) (children ob) 0
         else (case stored ax ob of None \<Rightarrow> Inl AssertionError | Some v \<Rightarrow> Inr v))"

text \<open>The object graph is acyclic: every child has a smaller rank than its parent. (The
  source forbids cycles; with one, the getters never return.)\<close>
definition ranked :: "(ref \<Rightarrow> nat) \<Rightarrow> heap \<Rightarrow> bool" where
  "ranked rk H = (\<forall>a ob. H a = Some ob \<longrightarrow> (\<forall>ch \<in> set (children ob). rk (fst ch) < rk a))"

text \<open>Two heaps with the same objects, classes and children lists that agree on every object
  whose dimensions are stored rather than derived: they differ at most in what the derived
  getters cache.\<close>
definition same_tree :: "heap \<Rightarrow> heap \<Rightarrow> bool" where
  "same_tree H H' =
     (\<forall>b. (H b = None \<longrightarrow> H' b = None) \<and>
          (\<forall>ob. H b = Some ob \<longrightarrow>
             (\<exists>ob'. H' b = Some ob' \<and> kind_of ob' = kind_of ob \<and> children ob' = children ob \<and>
                    (\<not> derived (kind_of ob) \<longrightarrow> ob' = ob))))"

text \<open>A cell whose height setter can run: the object exists and, when it is a TextBox, it has
  its text child and a stored width, as \<open>TextBox.__init__\<close> leaves it (the setter of a
  TextBox re-centres the text and reads both).\<close>
definition cell_ok :: "heap \<Rightarrow> ref \<Rightarrow> bool" where
  "cell_ok G c = (\<exists>cb. G c = Some cb \<and>
                   (kind_of cb = TextBox \<longrightarrow> children cb \<noteq> [] \<and> stored_w cb \<noteq> None))"

section \<open>Example states\<close>

text \<open>The module state after import: no objects, \<open>default_style = Style()\<close>.\<close>
definition initial_world :: world where
  "initial_world = \<lparr>heap = Map.empty, default_style = Style_default, next_ref = 0\<rparr>"

text \<open>A second style, to replace the default with.\<close>
definition style_red :: Style where
  "style_red = Style_default\<lparr>stroke_color := ''red''\<rparr>"

text \<open>\<open>Rectangle(height=7)\<close>, alone in the heap: its width was never given.\<close>
definition bare_rect :: heap where
  "bare_rect = heap (snd (new_Rectangle None (Some 7) None [] initial_world))"

text \<open>A renderer that measures every text as 12 by 8, and Text objects alone in the heap:
  \<open>Text('hi', width=0, height=5)\<close>, \<open>Text('hi', height=5)\<close>, \<open>Text('hi', width=7, height=0)\<close>.\<close>
definition fixed_bbox :: renderer where
  "fixed_bbox t s = (0, 0, 12, 8)"

definition text05 :: heap where
  "text05 = heap (snd (new_Text ''hi'' LEFT (Some 0) (Some 5) None [] initial_world))"

definition text05_obj :: obj where
  "text05_obj = \<lparr>kind_of = Text, stored_w = Some 0, stored_h = Some 5,
     style = Style_default, children = [], parent = None, align = LEFT, line_start = (0, 0),
     line_end = (0, 0), dash_len = 0, double_sided = False, alen = 0, text_of = ''hi''\<rparr>"

definition textN5 :: heap where
  "textN5 = heap (snd (new_Text ''hi'' LEFT None (Some 5) None [] initial_world))"

definition text70 :: heap where
  "text70 = heap (snd (new_Text ''hi'' LEFT (Some 7) (Some 0) None [] initial_world))"




text \<open>\<open>Rectangle(width=w0, height=h0)\<close> with the given parent, and a childless-by-default
  node of class \<open>k\<close> with children \<open>cs\<close>, as the constructors and \<open>add\<close> leave them.\<close>
definition rect_obj :: "int \<Rightarrow> int \<Rightarrow> ref option \<Rightarrow> obj" where
  "rect_obj w0 h0 par = \<lparr>kind_of = Rectangle, stored_w = Some w0, stored_h = Some h0,
     style = Style_default, children = [], parent = par, align = CENTER, line_start = (0, 0),
     line_end = (0, 0), dash_len = 0, double_sided = False, alen = 0, text_of = []\<rparr>"

definition layout_obj :: "kind \<Rightarrow> (ref \<times> point) list \<Rightarrow> obj" where
  "layout_obj k cs = \<lparr>kind_of = k, stored_w = None, stored_h = None,
     style = Style_default, children = cs, parent = None, align = CENTER, line_start = (0, 0),
     line_end = (0, 0), dash_len = 0, double_sided = False, alen = 0, text_of = []\<rparr>"

text \<open>\<open>a = Rectangle(width=100, height=10); b = Rectangle(width=10, height=10); v = Cls();
  v.add(a); v.add(b, off)\<close>: the objects get the references 0, 1 and 2.\<close>
definition scene :: "ctor \<Rightarrow> point \<Rightarrow> error + heap" where
  "scene c off =
     and_then (construct mk_Rectangle (Some 100) (Some 10) None [] initial_world) (\<lambda>(a, W1).
     and_then (construct mk_Rectangle (Some 10) (Some 10) None [] W1) (\<lambda>(b, W2).
     and_then (construct c None None None [] W2) (\<lambda>(v, W3).
     and_then (add v a (0, 0) (heap W3)) (\<lambda>H.
     add v b off H))))"

text \<open>\<open>r = Rectangle(width=50, height=30); cv = Canvas(); cv.add(r)\<close> under the default
  style (padding 10): the rectangle is object 0, the canvas object 1.\<close>
definition canvas_scene :: "error + heap" where
  "canvas_scene =
     and_then (construct mk_Rectangle (Some 50) (Some 30) None [] initial_world) (\<lambda>(r, W1).
     and_then (construct mk_Canvas None None None [] W1) (\<lambda>(cv, W2).
     add cv r (0, 0) (heap W2)))"

definition canvas_heap :: heap where
  "canvas_heap = Map.empty(0 \<mapsto> rect_obj 50 30 (Some 1), 1 \<mapsto> layout_obj Canvas [(0, (0, 0))])"

text \<open>\<open>r = Rectangle(width=5, height=5); v = VLayout(); v.add(r, P(-10, 0))\<close>: the rectangle is
  object 0, the layout object 1.\<close>
definition neg_scene :: "error + heap" where
  "neg_scene =
     and_then (construct mk_Rectangle (Some 5) (Some 5) None [] initial_world) (\<lambda>(r, W1).
     and_then (construct (mk_VLayout CENTER) None None None [] W1) (\<lambda>(v, W2).
     add v r (- 10, 0) (heap W2)))"

text \<open>A Table (object 3) whose three cells (objects 0, 1, 2) are rectangles 5 wide with the
  given heights; \<open>table_heap\<close> is the heap the construction yields.\<close>
definition table_scene :: "int \<Rightarrow> int \<Rightarrow> int \<Rightarrow> error + heap" where
  "table_scene h0 h1 h2 =
     and_then (construct mk_Rectangle (Some 5) (Some h0) None [] initial_world) (\<lambda>(r0, W1).
     and_then (construct mk_Rectangle (Some 5) (Some h1) None [] W1) (\<lambda>(r1, W2).
     and_then (construct mk_Rectangle (Some 5) (Some h2) None [] W2) (\<lambda>(r2, W3).
     and_then (construct (mk_Table CENTER) None None None [] W3) (\<lambda>(t, W4).
     and_then (add t r0 (0, 0) (heap W4)) (\<lambda>H.
     and_then (add t r1 (0, 0) H) (add t r2 (0, 0)))))))"

definition table_heap :: "int \<Rightarrow> int \<Rightarrow> int \<Rightarrow> heap" where
  "table_heap h0 h1 h2 =
     Map.empty(0 \<mapsto> rect_obj 5 h0 (Some 3), 1 \<mapsto> rect_obj 5 h1 (Some 3),
               2 \<mapsto> rect_obj 5 h2 (Some 3),
               3 \<mapsto> layout_obj Table [(0, (0, 0)), (1, (0, 0)), (2, (0, 0))])"

text \<open>\<open>r = Rectangle(width=5, height=5); v = VLayout(); t = Table(); v.add(r, P(0, -10));
  t.add(v)\<close>: the cell of the table (object 2) is the layout (object 1), whose height is
  5 + (-10) = -5.\<close>
definition neg_table_scene :: "error + heap" where
  "neg_table_scene =
     and_then (construct mk_Rectangle (Some 5) (Some 5) None [] initial_world) (\<lambda>(r, W1).
     and_then (construct (mk_VLayout CENTER) None None None [] W1) (\<lambda>(v, W2).
     and_then (construct (mk_Table CENTER) None None None [] W2) (\<lambda>(t, W3).
     and_then (add v r (0, - 10) (heap W3)) (add t v (0, 0)))))"

section \<open>Getters and setters of the base class\<close>

lemma set_width_get:
  "set_width H a v = Inr H' \<Longrightarrow>
     \<exists>ob. H' a = Some ob \<and> stored_w ob = Some v \<and> (\<exists>ob0. H a = Some ob0 \<and> kind_of ob = kind_of ob0)"
  by (auto simp: set_width_def split: option.splits)

lemma set_height_get:
  "set_height H a v = Inr H' \<Longrightarrow>
     \<exists>ob. H' a = Some ob \<and> stored_h ob = Some v \<and> (\<exists>ob0. H a = Some ob0 \<and> kind_of ob = kind_of ob0)"
  by (auto simp: set_height_def TextBox_recenter_def Object_width_def Object_height_def
      split: option.splits if_splits list.splits)

text \<open>
  Claim C8. On a node of a class that does not derive its dimensions (every class but
  VLayout, HLayout and Table), reading \<open>width\<close> or \<open>height\<close> while the stored dimension
  is \<open>None\<close> (never given to the constructor, never assigned) ends in an AssertionError,
  not in a default value; when the dimension is stored, the getter returns exactly the
  stored value and leaves the heap alone; and after an assignment through the setter the
  getter returns the assigned value.
\<close>
theorem base_dimension_getters:
  assumes "H a = Some ob" and "\<not> derived (kind_of ob)"
  shows "(stored_w ob = None \<longrightarrow> width (Suc n) H a = Inl AssertionError) \<and>
         (stored_h ob = None \<longrightarrow> height (Suc n) H a = Inl AssertionError) \<and>
         (\<forall>v. stored_w ob = Some v \<longrightarrow> width (Suc n) H a = Inr (v, H)) \<and>
         (\<forall>v. stored_h ob = Some v \<longrightarrow> height (Suc n) H a = Inr (v, H)) \<and>
         (\<forall>v H'. set_width H a v = Inr H' \<longrightarrow> width (Suc n) H' a = Inr (v, H')) \<and>
         (\<forall>v H'. set_height H a v = Inr H' \<longrightarrow> height (Suc n) H' a = Inr (v, H'))"
proof -
  have k: "kind_of ob \<noteq> VLayout" "kind_of ob \<noteq> HLayout" "kind_of ob \<noteq> Table"
    using assms(2) by (auto simp: derived_def)
  have 1: "stored_w ob = None \<longrightarrow> width (Suc n) H a = Inl AssertionError"
    using assms(1) k by (simp add: Object_width_def)
  have 2: "stored_h ob = None \<longrightarrow> height (Suc n) H a = Inl AssertionError"
    using assms(1) k by (simp add: Object_height_def)
  have 3: "\<forall>v. stored_w ob = Some v \<longrightarrow> width (Suc n) H a = Inr (v, H)"
    using assms(1) k by (simp add: Object_width_def)
  have 4: "\<forall>v. stored_h ob = Some v \<longrightarrow> height (Suc n) H a = Inr (v, H)"
    using assms(1) k by (simp add: Object_height_def)
  have 5: "\<forall>v H'. set_width H a v = Inr H' \<longrightarrow> width (Suc n) H' a = Inr (v, H')"
  proof (intro allI impI)
    fix v H' assume s: "set_width H a v = Inr H'"
    from set_width_get[OF s] assms(1) obtain ob' where
      "H' a = Some ob'" "stored_w ob' = Some v" "kind_of ob' = kind_of ob" by auto
    then show "width (Suc n) H' a = Inr (v, H')"
      using k by (simp add: Object_width_def)
  qed
  have 6: "\<forall>v H'. set_height H a v = Inr H' \<longrightarrow> height (Suc n) H' a = Inr (v, H')"
  proof (intro allI impI)
    fix v H' assume s: "set_height H a v = Inr H'"
    from set_height_get[OF s] assms(1) obtain ob' where
      "H' a = Some ob'" "stored_h ob' = Some v" "kind_of ob' = kind_of ob" by auto
    then show "height (Suc n) H' a = Inr (v, H')"
      using k by (simp add: Object_height_def)
  qed
  from 1 2 3 4 5 6 show ?thesis by blast
qed

lemma bare_rect_0:
  "bare_rect 0 = Some \<lparr>kind_of = Rectangle, stored_w = None, stored_h = Some 7,
     style = Style_default, children = [], parent = None, align = CENTER, line_start = (0, 0),
     line_end = (0, 0), dash_len = 0, double_sided = False, alen = 0, text_of = []\<rparr>"
  by (simp add: bare_rect_def new_Rectangle_def Object_init_def initial_world_def)

theorem base_dimension_getters_witness:
  "width 1 bare_rect 0 = Inl AssertionError \<and> height 1 bare_rect 0 = Inr (7, bare_rect) \<and>
   and_then (set_width bare_rect 0 3) (\<lambda>H'. and_then (width 1 H' 0) (\<lambda>r. Inr (fst r))) = Inr 3"
  using base_dimension_getters[where H = bare_rect and a = 0 and n = 0, OF bare_rect_0]
  by (simp add: derived_def set_width_def bare_rect_0)

section \<open>Construction and the default style\<close>

lemma Object_init_frame:
  "Object_init k w0 h0 st kw W = (a, W1) \<Longrightarrow>
     a = next_ref W \<and> next_ref W1 = Suc (next_ref W) \<and> default_style W1 = default_style W \<and>
     (\<forall>b. b \<noteq> a \<longrightarrow> heap W1 b = heap W b) \<and>
     (\<exists>ob. heap W1 a = Some ob \<and> style ob = captured st kw W \<and> kind_of ob = k \<and>
           stored_w ob = w0 \<and> stored_h ob = h0 \<and> children ob = [])"
  by (auto simp: Object_init_def captured_def Let_def)

lemma modify_frame:
  "next_ref (modify a f W) = next_ref W \<and> default_style (modify a f W) = default_style W \<and>
   (\<forall>b. b \<noteq> a \<longrightarrow> heap (modify a f W) b = heap W b) \<and>
   (\<forall>ob. heap W a = Some ob \<longrightarrow> heap (modify a f W) a = Some (f ob))"
  by (auto simp: modify_def split: option.splits)

lemma built_Object_init: "Object_init k w0 h0 st kw W = (a, W1) \<Longrightarrow> built st kw W a W1"
  by (drule Object_init_frame) (auto simp: built_def node_style_def)

lemma built_modify:
  "built st kw W a W1 \<Longrightarrow> (\<And>ob. style (f ob) = style ob) \<Longrightarrow> built st kw W a (modify a f W1)"
  using modify_frame[of a f W1]
  by (auto simp: built_def node_style_def)

lemma built_Line_init: "Line_init k e s st kw W = (a, W1) \<Longrightarrow> built st kw W a W1"
  by (auto simp: Line_init_def split: prod.splits dest!: built_Object_init intro: built_modify)

lemma built_new_TextBox:
  assumes "new_TextBox t al w0 h0 st kw W = Inr (a, W1)" shows "built st kw W a W1"
  using assms
  by (auto simp: new_TextBox_def Object_init_def new_Text_def modify_def add_def Object_width_def
      Object_height_def built_def node_style_def captured_def Let_def
      split: option.splits prod.splits if_splits)

lemma built_construct: "construct c w0 h0 st kw W = Inr (a, W1) \<Longrightarrow> built st kw W a W1"
proof (cases c)
  case mk_Spacer
  assume "construct c w0 h0 st kw W = Inr (a, W1)"
  with mk_Spacer show ?thesis
    by (auto simp: new_Spacer_def split: prod.splits dest!: built_Object_init intro!: built_modify)
next
  case (mk_TextBox t al)
  assume "construct c w0 h0 st kw W = Inr (a, W1)"
  with mk_TextBox show ?thesis by (simp add: built_new_TextBox)
qed (auto simp: new_Object_def new_VLayout_def new_HLayout_def new_Table_def new_Rectangle_def
      new_Canvas_def new_Text_def new_Line_def new_DottedLine_def new_Arrow_def
      split: prod.splits if_splits dest!: built_Object_init built_Line_init intro!: built_modify)

text \<open>
  Claim C9. A node of any class constructed without a \<open>style\<close> argument takes the
  value of the global default style of that moment (with the keyword overrides applied,
  when there are any). A Style is an immutable value: replacing the default afterwards with
  \<open>set_style\<close> leaves the style of the node unchanged, and a node constructed after the
  replacement (without overrides) takes the new default, again without touching the first.
\<close>
theorem default_style_snapshot:
  assumes "construct c w0 h0 None kw W = Inr (a, W1)"
  shows "node_style W1 a = Some (if kw \<noteq> [] then Style_replace (default_style W) kw else default_style W) \<and>
         node_style (set_style s W1) a = node_style W1 a \<and>
         (\<forall>c2 w2 h2 b W2. construct c2 w2 h2 None [] (set_style s W1) = Inr (b, W2) \<longrightarrow>
            node_style W2 b = Some s \<and> node_style W2 a = node_style W1 a)"
proof -
  have b1: "built None kw W a W1" using assms by (rule built_construct)
  have 1: "node_style W1 a = Some (if kw \<noteq> [] then Style_replace (default_style W) kw else default_style W)"
    using b1 by (auto simp: built_def captured_def Let_def)
  have 2: "node_style (set_style s W1) a = node_style W1 a"
    by (simp add: node_style_def set_style_def)
  have 3: "\<forall>c2 w2 h2 b W2. construct c2 w2 h2 None [] (set_style s W1) = Inr (b, W2) \<longrightarrow>
            node_style W2 b = Some s \<and> node_style W2 a = node_style W1 a"
  proof (intro allI impI)
    fix c2 w2 h2 b W2
    assume "construct c2 w2 h2 None [] (set_style s W1) = Inr (b, W2)"
    then have b2: "built None [] (set_style s W1) b W2" by (rule built_construct)
    have "a < next_ref (set_style s W1)" using b1 by (simp add: built_def set_style_def)
    with b2 have "heap W2 a = heap W1 a" by (simp add: built_def set_style_def)
    then have "node_style W2 a = node_style W1 a" by (simp add: node_style_def)
    moreover have "node_style W2 b = Some s" using b2 by (auto simp: built_def captured_def set_style_def Let_def)
    ultimately show "node_style W2 b = Some s \<and> node_style W2 a = node_style W1 a" by simp
  qed
  from 1 2 3 show ?thesis by blast
qed

theorem default_style_snapshot_witness:
  "(case construct (mk_Text ''hi'' LEFT) None None None [] initial_world of
      Inl e \<Rightarrow> False
    | Inr (a, W1) \<Rightarrow>
        node_style W1 a = Some Style_default \<and>
        node_style (set_style style_red W1) a = Some Style_default \<and>
        (case construct mk_Rectangle (Some 1) (Some 1) None [] (set_style style_red W1) of
           Inl e \<Rightarrow> False
         | Inr (b, W2) \<Rightarrow> node_style W2 b = Some style_red \<and> node_style W2 a = Some Style_default))"
proof -
  obtain a W1 where n1: "new_Text ''hi'' LEFT None None None [] initial_world = (a, W1)"
    by (cases "new_Text ''hi'' LEFT None None None [] initial_world")
  obtain b W2 where n2: "new_Rectangle (Some 1) (Some 1) None [] (set_style style_red W1) = (b, W2)"
    by (cases "new_Rectangle (Some 1) (Some 1) None [] (set_style style_red W1)")
  have c1: "construct (mk_Text ''hi'' LEFT) None None None [] initial_world = Inr (a, W1)"
    by (simp add: n1)
  have c2: "construct mk_Rectangle (Some 1) (Some 1) None [] (set_style style_red W1) = Inr (b, W2)"
    by (simp add: n2)
  have d: "default_style initial_world = Style_default" by (simp add: initial_world_def)
  note t = default_style_snapshot[OF c1, of style_red]
  from t c2 have "node_style W2 b = Some style_red \<and> node_style W2 a = node_style W1 a" by blast
  with t d show ?thesis by (simp add: n1 n2)
qed

section \<open>Text.prepare\<close>

lemma Text_measure_eq:
  assumes "fst S a = Some ob" and "kind_of ob = Text"
  shows "Text_measure R a S = Inr ((fst S)(a \<mapsto> measured R ob), snd S @ bbox_calls ob)"
proof (cases "falsy (stored_w ob) \<or> falsy (stored_h ob)")
  case True
  obtain l t r b where bb: "R (text_of ob) (style ob) = (l, t, r, b)"
    by (cases "R (text_of ob) (style ob)") auto
  from True assms bb show ?thesis
    by (simp add: Text_measure_def set_width_def set_height_def measured_def bbox_calls_def
        bbox_right_def bbox_bottom_def)
next
  case False
  have "(fst S)(a \<mapsto> ob) = fst S" using assms(1) by (simp add: fun_upd_idem)
  with False assms show ?thesis
    by (simp add: Text_measure_def measured_def bbox_calls_def)
qed

lemma prepare_Text:
  assumes "H a = Some ob" and "kind_of ob = Text"
    and "Object_prepare (prepare n R) a (H, L) = Inr (H1, L1)" and "H1 a = Some ob"
  shows "prepare (Suc n) R a (H, L) = Inr (H1(a \<mapsto> measured R ob), L1 @ bbox_calls ob)"
  using assms Text_measure_eq[of "(H1, L1)" a ob R]
  by (simp add: Text_prepare_def)

lemma py_or_idem: "py_or (Some (py_or w r)) r = py_or w r"
  by (cases w) auto

lemma measured_idem: "measured R (measured R ob) = measured R ob"
  by (cases "stored_w ob"; cases "stored_h ob") (auto simp: measured_def)

lemma measured_kind: "kind_of (measured R ob) = kind_of ob"
  by (simp add: measured_def)

text \<open>
  Claim C7 (amended). Let the preparation of the children of a Text node succeed and leave
  the node itself as it was (in a tree it always does). Then \<open>prepare\<close> succeeds; when both
  stored dimensions are set and non-zero it makes no \<open>text_bbox\<close> call and changes
  nothing; when it measures, a dimension that is set and non-zero keeps its value, and a
  dimension that is \<open>None\<close> or 0 becomes the measured right (bottom) extent; and a second
  \<open>prepare\<close> with the same renderer leaves the node with the same width and height as
  the first.
\<close>
theorem Text_prepare_idempotent:
  assumes "H a = Some ob" and "kind_of ob = Text"
    and "Object_prepare (prepare n R) a (H, L) = Inr (H1, L1)" and "H1 a = Some ob"
  shows "prepare (Suc n) R a (H, L) = Inr (H1(a \<mapsto> measured R ob), L1 @ bbox_calls ob) \<and>
         (\<not> falsy (stored_w ob) \<and> \<not> falsy (stored_h ob) \<longrightarrow>
            H1(a \<mapsto> measured R ob) = H1 \<and> bbox_calls ob = []) \<and>
         (\<not> falsy (stored_w ob) \<longrightarrow> stored_w (measured R ob) = stored_w ob) \<and>
         (\<not> falsy (stored_h ob) \<longrightarrow> stored_h (measured R ob) = stored_h ob) \<and>
         (falsy (stored_w ob) \<longrightarrow>
            stored_w (measured R ob) = Some (bbox_right (R (text_of ob) (style ob)))) \<and>
         (falsy (stored_h ob) \<longrightarrow>
            stored_h (measured R ob) = Some (bbox_bottom (R (text_of ob) (style ob)))) \<and>
         (\<forall>m H3 L3.
            Object_prepare (prepare m R) a (H1(a \<mapsto> measured R ob), L1 @ bbox_calls ob) = Inr (H3, L3)
              \<and> H3 a = Some (measured R ob) \<longrightarrow>
            prepare (Suc m) R a (H1(a \<mapsto> measured R ob), L1 @ bbox_calls ob) =
              Inr (H3, L3 @ bbox_calls (measured R ob)))"
proof -
  have 1: "prepare (Suc n) R a (H, L) = Inr (H1(a \<mapsto> measured R ob), L1 @ bbox_calls ob)"
    using assms by (rule prepare_Text)
  have 2: "\<not> falsy (stored_w ob) \<and> \<not> falsy (stored_h ob) \<longrightarrow>
            H1(a \<mapsto> measured R ob) = H1 \<and> bbox_calls ob = []"
    using assms(4) by (auto simp: measured_def bbox_calls_def fun_upd_idem)
  have 3: "\<not> falsy (stored_w ob) \<longrightarrow> stored_w (measured R ob) = stored_w ob"
    by (cases "stored_w ob") (auto simp: measured_def)
  have 4: "\<not> falsy (stored_h ob) \<longrightarrow> stored_h (measured R ob) = stored_h ob"
    by (cases "stored_h ob") (auto simp: measured_def)
  have 5: "falsy (stored_w ob) \<longrightarrow>
            stored_w (measured R ob) = Some (bbox_right (R (text_of ob) (style ob)))"
    by (cases "stored_w ob") (auto simp: measured_def)
  have 6: "falsy (stored_h ob) \<longrightarrow>
            stored_h (measured R ob) = Some (bbox_bottom (R (text_of ob) (style ob)))"
    by (cases "stored_h ob") (auto simp: measured_def)
  have 7: "\<forall>m H3 L3.
            Object_prepare (prepare m R) a (H1(a \<mapsto> measured R ob), L1 @ bbox_calls ob) = Inr (H3, L3)
              \<and> H3 a = Some (measured R ob) \<longrightarrow>
            prepare (Suc m) R a (H1(a \<mapsto> measured R ob), L1 @ bbox_calls ob) =
              Inr (H3, L3 @ bbox_calls (measured R ob))"
  proof (intro allI impI, elim conjE)
    fix m H3 L3
    assume p: "Object_prepare (prepare m R) a (H1(a \<mapsto> measured R ob), L1 @ bbox_calls ob) = Inr (H3, L3)"
      and k: "H3 a = Some (measured R ob)"
    have "prepare (Suc m) R a (H1(a \<mapsto> measured R ob), L1 @ bbox_calls ob) =
            Inr (H3(a \<mapsto> measured R (measured R ob)), L3 @ bbox_calls (measured R ob))"
      using p k assms(2) by (intro prepare_Text) (simp_all add: measured_kind)
    moreover have "H3(a \<mapsto> measured R (measured R ob)) = H3"
      using k by (simp add: measured_idem fun_upd_idem)
    ultimately show "prepare (Suc m) R a (H1(a \<mapsto> measured R ob), L1 @ bbox_calls ob) =
              Inr (H3, L3 @ bbox_calls (measured R ob))" by simp
  qed
  from 1 2 3 4 5 6 7 show ?thesis by blast
qed

lemma text05_0: "text05 0 = Some text05_obj"
  by (simp add: text05_def text05_obj_def new_Text_def Object_init_def initial_world_def modify_def)

lemma text05_children: "Object_prepare (prepare n R) 0 (text05, L) = Inr (text05, L)"
  by (simp add: Object_prepare_def children_of_def text05_0 text05_obj_def)

lemma textN5_0: "textN5 0 = Some (text05_obj\<lparr>stored_w := None\<rparr>)"
  by (simp add: textN5_def text05_obj_def new_Text_def Object_init_def initial_world_def modify_def)

lemma text70_0: "text70 0 = Some (text05_obj\<lparr>stored_w := Some 7, stored_h := Some 0\<rparr>)"
  by (simp add: text70_def text05_obj_def new_Text_def Object_init_def initial_world_def modify_def)

lemma textN5_children: "Object_prepare (prepare n R) 0 (textN5, L) = Inr (textN5, L)"
  by (simp add: Object_prepare_def children_of_def textN5_0 text05_obj_def)

lemma text70_children: "Object_prepare (prepare n R) 0 (text70, L) = Inr (text70, L)"
  by (simp add: Object_prepare_def children_of_def text70_0 text05_obj_def)

theorem Text_prepare_idempotent_witness:
  "prepare 1 fixed_bbox 0 (textN5, []) =
     Inr (textN5(0 \<mapsto> text05_obj\<lparr>stored_w := Some 12\<rparr>), [call_text_bbox ''hi'' Style_default]) \<and>
   prepare 1 fixed_bbox 0
     (textN5(0 \<mapsto> text05_obj\<lparr>stored_w := Some 12\<rparr>), [call_text_bbox ''hi'' Style_default]) =
     Inr (textN5(0 \<mapsto> text05_obj\<lparr>stored_w := Some 12\<rparr>), [call_text_bbox ''hi'' Style_default])"
proof -
  have k: "kind_of (text05_obj\<lparr>stored_w := None\<rparr>) = Text" by (simp add: text05_obj_def)
  have m: "measured fixed_bbox (text05_obj\<lparr>stored_w := None\<rparr>) = text05_obj\<lparr>stored_w := Some 12\<rparr>"
    by (simp add: measured_def text05_obj_def fixed_bbox_def bbox_right_def bbox_bottom_def)
  have c: "bbox_calls (text05_obj\<lparr>stored_w := None\<rparr>) = [call_text_bbox ''hi'' Style_default]"
    by (simp add: bbox_calls_def text05_obj_def)
  have c2: "bbox_calls (text05_obj\<lparr>stored_w := Some 12\<rparr>) = []"
    by (simp add: bbox_calls_def text05_obj_def)
  have ch: "Object_prepare (prepare 0 fixed_bbox) 0
              (textN5(0 \<mapsto> text05_obj\<lparr>stored_w := Some 12\<rparr>), [call_text_bbox ''hi'' Style_default]) =
            Inr (textN5(0 \<mapsto> text05_obj\<lparr>stored_w := Some 12\<rparr>), [call_text_bbox ''hi'' Style_default])"
    by (simp add: Object_prepare_def children_of_def text05_obj_def)
  note t = Text_prepare_idempotent[where H = textN5 and a = 0 and n = 0 and R = fixed_bbox
      and L = "[]" and ?H1.0 = textN5 and ?L1.0 = "[]", OF textN5_0 k textN5_children textN5_0]
  from t have 1: "prepare 1 fixed_bbox 0 (textN5, []) =
     Inr (textN5(0 \<mapsto> text05_obj\<lparr>stored_w := Some 12\<rparr>), [call_text_bbox ''hi'' Style_default])"
    by (simp add: m c)
  from t[THEN conjunct2, THEN conjunct2, THEN conjunct2, THEN conjunct2, THEN conjunct2,
         THEN conjunct2, rule_format, of 0
           "textN5(0 \<mapsto> text05_obj\<lparr>stored_w := Some 12\<rparr>)" "[call_text_bbox ''hi'' Style_default]"]
  have 2: "prepare 1 fixed_bbox 0
     (textN5(0 \<mapsto> text05_obj\<lparr>stored_w := Some 12\<rparr>), [call_text_bbox ''hi'' Style_default]) =
     Inr (textN5(0 \<mapsto> text05_obj\<lparr>stored_w := Some 12\<rparr>), [call_text_bbox ''hi'' Style_default])"
    using ch by (simp add: m c c2)
  from 1 2 show ?thesis by simp
qed

text \<open>
  Claim C7 as stated fails: \<open>Text('hi', width=0, height=5)\<close> has both dimensions set at
  construction, and \<open>prepare\<close> still calls \<open>text_bbox\<close> and overwrites the width.
\<close>
theorem explicit_zero_width_is_measured:
  "text05 = heap (snd (new_Text ''hi'' LEFT (Some 0) (Some 5) None [] initial_world)) \<and>
   prepare 1 fixed_bbox 0 (text05, []) =
     Inr (text05(0 \<mapsto> text05_obj\<lparr>stored_w := Some 12\<rparr>), [call_text_bbox ''hi'' Style_default])"
proof -
  have k: "kind_of text05_obj = Text" by (simp add: text05_obj_def)
  have m: "measured fixed_bbox text05_obj = text05_obj\<lparr>stored_w := Some 12\<rparr>"
    by (simp add: measured_def text05_obj_def fixed_bbox_def bbox_right_def bbox_bottom_def)
  have c: "bbox_calls text05_obj = [call_text_bbox ''hi'' Style_default]"
    by (simp add: bbox_calls_def text05_obj_def)
  from prepare_Text[where H = text05 and a = 0 and n = 0 and R = fixed_bbox
      and L = "[]" and ?H1.0 = text05 and ?L1.0 = "[]", OF text05_0 k text05_children text05_0]
  show ?thesis by (simp add: m c text05_def)
qed

text \<open>
  Claim C10. A Text node whose stored width or height is 0 is measured like one whose
  dimension was never given: \<open>prepare\<close> calls \<open>text_bbox\<close> once, the zero dimension
  becomes the measured extent, and the measuring step ends in the very same state as it
  does when the dimension is \<open>None\<close>. (As for C7, the children's preparation is assumed
  to succeed and to leave the node itself as it was.)
\<close>
theorem zero_dimension_remeasured:
  assumes "H a = Some ob" and "kind_of ob = Text"
    and "Object_prepare (prepare n R) a (H, L) = Inr (H1, L1)" and "H1 a = Some ob"
    and "stored_w ob = Some 0 \<or> stored_h ob = Some 0"
  shows "prepare (Suc n) R a (H, L) =
           Inr (H1(a \<mapsto> ob\<lparr>stored_w := Some (py_or (stored_w ob) (bbox_right (R (text_of ob) (style ob)))),
                            stored_h := Some (py_or (stored_h ob) (bbox_bottom (R (text_of ob) (style ob))))\<rparr>),
                L1 @ [call_text_bbox (text_of ob) (style ob)]) \<and>
         (stored_w ob = Some 0 \<longrightarrow>
            py_or (stored_w ob) (bbox_right (R (text_of ob) (style ob))) =
              bbox_right (R (text_of ob) (style ob)) \<and>
            Text_measure R a (H1(a \<mapsto> ob\<lparr>stored_w := None\<rparr>), L1) = Text_measure R a (H1, L1)) \<and>
         (stored_h ob = Some 0 \<longrightarrow>
            py_or (stored_h ob) (bbox_bottom (R (text_of ob) (style ob))) =
              bbox_bottom (R (text_of ob) (style ob)) \<and>
            Text_measure R a (H1(a \<mapsto> ob\<lparr>stored_h := None\<rparr>), L1) = Text_measure R a (H1, L1))"
proof -
  have f: "falsy (stored_w ob) \<or> falsy (stored_h ob)" using assms(5) by auto
  have 1: "prepare (Suc n) R a (H, L) =
           Inr (H1(a \<mapsto> ob\<lparr>stored_w := Some (py_or (stored_w ob) (bbox_right (R (text_of ob) (style ob)))),
                            stored_h := Some (py_or (stored_h ob) (bbox_bottom (R (text_of ob) (style ob))))\<rparr>),
                L1 @ [call_text_bbox (text_of ob) (style ob)])"
    using prepare_Text[OF assms(1-4)] f by (simp add: measured_def bbox_calls_def)
  have 2: "stored_w ob = Some 0 \<longrightarrow>
            py_or (stored_w ob) (bbox_right (R (text_of ob) (style ob))) =
              bbox_right (R (text_of ob) (style ob)) \<and>
            Text_measure R a (H1(a \<mapsto> ob\<lparr>stored_w := None\<rparr>), L1) = Text_measure R a (H1, L1)"
  proof
    assume z: "stored_w ob = Some 0"
    have a1: "Text_measure R a (H1, L1) = Inr (H1(a \<mapsto> measured R ob), L1 @ bbox_calls ob)"
      using Text_measure_eq[of "(H1, L1)" a ob R] assms by simp
    have a2: "Text_measure R a (H1(a \<mapsto> ob\<lparr>stored_w := None\<rparr>), L1) =
                Inr ((H1(a \<mapsto> ob\<lparr>stored_w := None\<rparr>))(a \<mapsto> measured R (ob\<lparr>stored_w := None\<rparr>)),
                     L1 @ bbox_calls (ob\<lparr>stored_w := None\<rparr>))"
      using Text_measure_eq[of "(H1(a \<mapsto> ob\<lparr>stored_w := None\<rparr>), L1)" a "ob\<lparr>stored_w := None\<rparr>" R] assms
      by simp
    have "measured R (ob\<lparr>stored_w := None\<rparr>) = measured R ob" using z by (simp add: measured_def)
    moreover have "bbox_calls (ob\<lparr>stored_w := None\<rparr>) = bbox_calls ob" using z by (simp add: bbox_calls_def)
    ultimately show "py_or (stored_w ob) (bbox_right (R (text_of ob) (style ob))) =
              bbox_right (R (text_of ob) (style ob)) \<and>
            Text_measure R a (H1(a \<mapsto> ob\<lparr>stored_w := None\<rparr>), L1) = Text_measure R a (H1, L1)"
      using z a1 a2 by simp
  qed
  have 3: "stored_h ob = Some 0 \<longrightarrow>
            py_or (stored_h ob) (bbox_bottom (R (text_of ob) (style ob))) =
              bbox_bottom (R (text_of ob) (style ob)) \<and>
            Text_measure R a (H1(a \<mapsto> ob\<lparr>stored_h := None\<rparr>), L1) = Text_measure R a (H1, L1)"
  proof
    assume z: "stored_h ob = Some 0"
    have a1: "Text_measure R a (H1, L1) = Inr (H1(a \<mapsto> measured R ob), L1 @ bbox_calls ob)"
      using Text_measure_eq[of "(H1, L1)" a ob R] assms by simp
    have a2: "Text_measure R a (H1(a \<mapsto> ob\<lparr>stored_h := None\<rparr>), L1) =
                Inr ((H1(a \<mapsto> ob\<lparr>stored_h := None\<rparr>))(a \<mapsto> measured R (ob\<lparr>stored_h := None\<rparr>)),
                     L1 @ bbox_calls (ob\<lparr>stored_h := None\<rparr>))"
      using Text_measure_eq[of "(H1(a \<mapsto> ob\<lparr>stored_h := None\<rparr>), L1)" a "ob\<lparr>stored_h := None\<rparr>" R] assms
      by simp
    have "measured R (ob\<lparr>stored_h := None\<rparr>) = measured R ob" using z by (simp add: measured_def)
    moreover have "bbox_calls (ob\<lparr>stored_h := None\<rparr>) = bbox_calls ob" using z by (simp add: bbox_calls_def)
    ultimately show "py_or (stored_h ob) (bbox_bottom (R (text_of ob) (style ob))) =
              bbox_bottom (R (text_of ob) (style ob)) \<and>
            Text_measure R a (H1(a \<mapsto> ob\<lparr>stored_h := None\<rparr>), L1) = Text_measure R a (H1, L1)"
      using z a1 a2 by simp
  qed
  from 1 2 3 show ?thesis by blast
qed

theorem zero_dimension_remeasured_witness:
  "prepare 1 fixed_bbox 0 (text70, []) =
     Inr (text70(0 \<mapsto> text05_obj\<lparr>stored_w := Some 7, stored_h := Some 8\<rparr>),
          [call_text_bbox ''hi'' Style_default]) \<and>
   Text_measure fixed_bbox 0 (text70(0 \<mapsto> text05_obj\<lparr>stored_w := Some 7, stored_h := None\<rparr>), []) =
     Text_measure fixed_bbox 0 (text70, [])"
proof -
  have k: "kind_of (text05_obj\<lparr>stored_w := Some 7, stored_h := Some 0\<rparr>) = Text"
    by (simp add: text05_obj_def)
  have z: "stored_w (text05_obj\<lparr>stored_w := Some 7, stored_h := Some 0\<rparr>) = Some 0 \<or>
           stored_h (text05_obj\<lparr>stored_w := Some 7, stored_h := Some 0\<rparr>) = Some 0" by simp
  note t = zero_dimension_remeasured[where H = text70 and a = 0 and n = 0 and R = fixed_bbox
      and L = "[]" and ?H1.0 = text70 and ?L1.0 = "[]", OF text70_0 k text70_children text70_0 z]
  then show ?thesis
    by (simp add: text05_obj_def fixed_bbox_def bbox_right_def bbox_bottom_def)
qed

section \<open>DottedLine.render\<close>










section \<open>Rendering children\<close>

lemma VLayout_step:
  "VLayout_render_loop gw gh rend x cx y ((c, ox, oy) # rest) S =
     and_then (gw S c) (\<lambda>(ow, S1).
     and_then (rend c (cx - ow div 2, y + oy) S1) (\<lambda>S2.
     and_then (gh S2 c) (\<lambda>(oh, S3).
     VLayout_render_loop gw gh rend x cx (y + (oh + oy)) rest S3)))"
  by (simp add: Let_def)

lemma VLayout_trace:
  "VLayout_render_loop (rec_get wv) (rec_get hv) rec_render x cx y cs T =
     Inr (T @ VLayout_places wv hv cx y cs)"
  by (induction cs arbitrary: y T) (auto simp: rec_get_def rec_render_def Let_def)

lemma HLayout_trace:
  "HLayout_render_loop (rec_get wv) rec_render x y cs T = Inr (T @ HLayout_places wv x y cs)"
  by (induction cs arbitrary: x T) (auto simp: rec_get_def rec_render_def)

lemma VLayout_places_centred:
  "(c, p) \<in> set (VLayout_places wv hv cx y cs) \<Longrightarrow> fst p + wv c div 2 = cx"
  by (induction cs arbitrary: y) auto

lemma scene_heap:
  "k = VLayout \<or> k = HLayout \<or> k = Table \<Longrightarrow>
   scene (case k of VLayout \<Rightarrow> mk_VLayout CENTER | HLayout \<Rightarrow> mk_HLayout CENTER | _ \<Rightarrow> mk_Table CENTER) off =
     Inr (Map.empty(0 \<mapsto> rect_obj 100 10 (Some 2), 1 \<mapsto> rect_obj 10 10 (Some 2),
                    2 \<mapsto> layout_obj k [(0, (0, 0)), (1, off)]))"
  by (auto simp: scene_def new_Rectangle_def new_VLayout_def new_HLayout_def new_Table_def
      Object_init_def initial_world_def
      modify_def add_def rect_obj_def layout_obj_def Let_def fun_upd_twist numeral_2_eq_2)

lemma HLayout_step:
  "HLayout_render_loop gw rend x y ((c, ox, oy) # rest) S =
     and_then (rend c (x + ox, y + oy) S) (\<lambda>S1.
     and_then (gw S1 c) (\<lambda>(ow, S2).
     HLayout_render_loop gw rend (x + (ow + ox)) y rest S2))"
  by simp

lemma render_VLayout:
  "fst S a = Some ob \<Longrightarrow> kind_of ob = VLayout \<Longrightarrow>
   render (Suc n) R a (x, y) S =
     and_then (getter (width n) S a) (\<lambda>(sw, S0).
       VLayout_render_loop (getter (width n)) (getter (height n)) (render n R) x (x + sw div 2) y
         (children_of (fst S0) a) S0)"
  by (simp add: VLayout_render_def)

lemma render_HLayout:
  "fst S a = Some ob \<Longrightarrow> kind_of ob = HLayout \<or> kind_of ob = Table \<Longrightarrow>
   render (Suc n) R a (x, y) S =
     HLayout_render_loop (getter (width n)) (render n R) x y (children_of (fst S) a) S"
  by (auto simp: HLayout_render_def)

text \<open>
  Claim C2. \<open>VLayout.render\<close> at \<open>(x, y)\<close> reads its own width, then walks the children
  in order with a cursor that starts at \<open>y\<close>: it reads the child's width \<open>ow\<close>, renders
  the child at \<open>(centerx - ow // 2, cursor + offy)\<close> where \<open>centerx = x + width // 2\<close>, so
  that the child's centre is the layout's centre, reads the child's height \<open>oh\<close> and
  advances the cursor by \<open>oh + offy\<close>. \<open>HLayout.render\<close> (also Table's) renders each
  child at \<open>(cursor + offx, y + offy)\<close> and advances the cursor by the child's width plus
  \<open>offx\<close>, with no centring. With recording stand-ins for the child calls the loops
  return exactly the placements \<open>VLayout_places\<close> and \<open>HLayout_places\<close>.
\<close>
theorem stacking_render_places:
  "VLayout_render_loop gw gh rend x cx y ((c, ox, oy) # rest) S =
     and_then (gw S c) (\<lambda>(ow, S1).
     and_then (rend c (cx - ow div 2, y + oy) S1) (\<lambda>S2.
     and_then (gh S2 c) (\<lambda>(oh, S3).
     VLayout_render_loop gw gh rend x cx (y + (oh + oy)) rest S3))) \<and>
   (fst S a = Some ob \<and> kind_of ob = VLayout \<longrightarrow>
      render (Suc n) R a (x, y) S =
        and_then (getter (width n) S a) (\<lambda>(sw, S0).
          VLayout_render_loop (getter (width n)) (getter (height n)) (render n R) x (x + sw div 2) y
            (children_of (fst S0) a) S0)) \<and>
   VLayout_render_loop (rec_get wv) (rec_get hv) rec_render x cx y cs T =
     Inr (T @ VLayout_places wv hv cx y cs) \<and>
   (\<forall>(c', p) \<in> set (VLayout_places wv hv cx y cs). fst p + wv c' div 2 = cx) \<and>
   HLayout_render_loop gw rend x y ((c, ox, oy) # rest) S =
     and_then (rend c (x + ox, y + oy) S) (\<lambda>S1.
     and_then (gw S1 c) (\<lambda>(ow, S2).
     HLayout_render_loop gw rend (x + (ow + ox)) y rest S2)) \<and>
   (fst S a = Some ob \<and> (kind_of ob = HLayout \<or> kind_of ob = Table) \<longrightarrow>
      render (Suc n) R a (x, y) S =
        HLayout_render_loop (getter (width n)) (render n R) x y (children_of (fst S) a) S) \<and>
   HLayout_render_loop (rec_get wv) rec_render x y cs T = Inr (T @ HLayout_places wv x y cs)"
proof -
  have 4: "\<forall>(c', p) \<in> set (VLayout_places wv hv cx y cs). fst p + wv c' div 2 = cx"
    using VLayout_places_centred by fastforce
  have 2: "fst S a = Some ob \<and> kind_of ob = VLayout \<longrightarrow>
      render (Suc n) R a (x, y) S =
        and_then (getter (width n) S a) (\<lambda>(sw, S0).
          VLayout_render_loop (getter (width n)) (getter (height n)) (render n R) x (x + sw div 2) y
            (children_of (fst S0) a) S0)"
    using render_VLayout by blast
  have 6: "fst S a = Some ob \<and> (kind_of ob = HLayout \<or> kind_of ob = Table) \<longrightarrow>
      render (Suc n) R a (x, y) S =
        HLayout_render_loop (getter (width n)) (render n R) x y (children_of (fst S) a) S"
    using render_HLayout by blast
  from VLayout_step[of gw gh rend x cx y c ox oy rest S] 2
    VLayout_trace[of wv hv x cx y cs T] 4 HLayout_step[of gw rend x y c ox oy rest S] 6
    HLayout_trace[of wv x y cs T]
  show ?thesis by blast
qed

lemma scene_V: "scene (mk_VLayout CENTER) off =
     Inr (Map.empty(0 \<mapsto> rect_obj 100 10 (Some 2), 1 \<mapsto> rect_obj 10 10 (Some 2),
                    2 \<mapsto> layout_obj VLayout [(0, (0, 0)), (1, off)]))"
  using scene_heap[of VLayout off] by simp

lemma scene_H: "scene (mk_HLayout CENTER) off =
     Inr (Map.empty(0 \<mapsto> rect_obj 100 10 (Some 2), 1 \<mapsto> rect_obj 10 10 (Some 2),
                    2 \<mapsto> layout_obj HLayout [(0, (0, 0)), (1, off)]))"
  using scene_heap[of HLayout off] by simp

lemma render_scene_V:
  "ox \<le> 90 \<Longrightarrow> map_sum id snd (and_then (scene (mk_VLayout CENTER) (ox, oy))
       (\<lambda>H. render 3 R 2 (0, 0) (H, []))) =
     Inr [call_rectangle (0, 0) (100, 10) Style_default,
          call_rectangle (45, 10 + oy) (55, 20 + oy) Style_default]"
  by (simp add: scene_V numeral_3_eq_3 numeral_2_eq_2 VLayout_render_def getter_def
      VLayout_width_def VLayout_height_def children_of_def write_w_def write_h_def read_w_def read_h_def
      return_w_def return_h_def Object_width_def Object_height_def rect_obj_def layout_obj_def
      Rectangle_render_def Object_render_def Let_def)

lemma render_scene_H:
  "map_sum id snd (and_then (scene (mk_HLayout CENTER) (ox, oy))
       (\<lambda>H. render 3 R 2 (0, 0) (H, []))) =
     Inr [call_rectangle (0, 0) (100, 10) Style_default,
          call_rectangle (100 + ox, oy) (110 + ox, 10 + oy) Style_default]"
  by (simp add: scene_H numeral_3_eq_3 numeral_2_eq_2 HLayout_render_def getter_def
      children_of_def Object_width_def Object_height_def rect_obj_def layout_obj_def
      Rectangle_render_def Object_render_def read_w_def read_h_def Let_def)

theorem stacking_render_places_witness:
  "VLayout_places (\<lambda>c. if c = 0 then 100 else 10) (\<lambda>c. 10) 50 0 [(0, (0, 0)), (1, (7, 3))] =
     [(0, (0, 0)), (1, (45, 13))] \<and>
   HLayout_places (\<lambda>c. if c = 0 then 100 else 10) 0 0 [(0, (0, 0)), (1, (7, 3))] =
     [(0, (0, 0)), (1, (107, 3))] \<and>
   VLayout_render_loop (rec_get (\<lambda>c. if c = 0 then 100 else 10)) (rec_get (\<lambda>c. 10)) rec_render
     0 50 0 [(0, (0, 0)), (1, (7, 3))] [] = Inr [(0, (0, 0)), (1, (45, 13))] \<and>
   HLayout_render_loop (rec_get (\<lambda>c. if c = 0 then 100 else 10)) rec_render
     0 0 [(0, (0, 0)), (1, (7, 3))] [] = Inr [(0, (0, 0)), (1, (107, 3))] \<and>
   map_sum id snd (and_then (scene (mk_VLayout CENTER) (7, 3)) (\<lambda>H. render 3 fixed_bbox 2 (0, 0) (H, []))) =
     Inr [call_rectangle (0, 0) (100, 10) Style_default,
          call_rectangle (45, 13) (55, 23) Style_default] \<and>
   map_sum id snd (and_then (scene (mk_HLayout CENTER) (7, 3)) (\<lambda>H. render 3 fixed_bbox 2 (0, 0) (H, []))) =
     Inr [call_rectangle (0, 0) (100, 10) Style_default,
          call_rectangle (107, 3) (117, 13) Style_default]"
proof -
  have p1: "VLayout_places (\<lambda>c. if c = 0 then 100 else 10) (\<lambda>c. 10) 50 0 [(0, (0, 0)), (1, (7, 3))] =
     [(0, (0, 0)), (1, (45, 13))]" by simp
  have p2: "HLayout_places (\<lambda>c. if c = 0 then 100 else 10) 0 0 [(0, (0, 0)), (1, (7, 3))] =
     [(0, (0, 0)), (1, (107, 3))]" by simp
  note t = stacking_render_places[where wv = "\<lambda>c. if c = 0 then 100 else 10" and hv = "\<lambda>c. 10"
      and x = 0 and cx = 50 and y = 0 and cs = "[(0, (0, 0)), (1, (7, 3))]" and T = "[]"]
  from t have t1: "VLayout_render_loop (rec_get (\<lambda>c. if c = 0 then 100 else 10)) (rec_get (\<lambda>c. 10)) rec_render
     0 50 0 [(0, (0, 0)), (1, (7, 3))] [] = Inr [(0, (0, 0)), (1, (45, 13))]"
    by (simp only: p1 append_Nil)
  from t have t2: "HLayout_render_loop (rec_get (\<lambda>c. if c = 0 then 100 else 10)) rec_render
     0 0 [(0, (0, 0)), (1, (7, 3))] [] = Inr [(0, (0, 0)), (1, (107, 3))]"
    by (simp only: p2 append_Nil)
  from p1 p2 t1 t2 render_scene_V[of 7 3 fixed_bbox] render_scene_H[of 7 3 fixed_bbox]
  show ?thesis by simp
qed












section \<open>Canvas.render\<close>

lemma set_dimensions_calls_append:
  "set_dimensions_calls (xs @ ys) = set_dimensions_calls xs @ set_dimensions_calls ys"
  by (induction xs) (auto split: call.splits)

text \<open>
  Claim C6. Take a Canvas whose style has padding 10 and whose only child sits at offset
  (0,0), and render it at the origin. The canvas first sets its own width and height to
  10, prepares the child and renders it at (10,10); let the child read 50 wide and 30
  high afterwards, none of this touching the canvas object. Then \<open>render\<close> succeeds, the
  canvas ends with width 70 and height 50, and the renderer has received the calls of the
  child followed by exactly one more: \<open>set_dimensions((70, 50))\<close>, the last call.
\<close>
theorem Canvas_single_child:
  assumes "H a = Some ob" and "kind_of ob = Canvas" and "padding (style ob) = 10"
    and "children ob = [(c, (0, 0))]"
    and "prepare n R c (H(a \<mapsto> ob\<lparr>stored_w := Some 10, stored_h := Some 10\<rparr>), L) = Inr (H1, L1)"
    and "render n R c (10, 10) (H1, L1) = Inr (H2, L2)"
    and "H2 a = Some (ob\<lparr>stored_w := Some 10, stored_h := Some 10\<rparr>)"
    and "width n H2 c = Inr (50, H3)"
    and "H3 a = H2 a"
    and "height n (H3(a \<mapsto> ob\<lparr>stored_w := Some 60, stored_h := Some 10\<rparr>)) c = Inr (30, H4)"
    and "H4 a = Some (ob\<lparr>stored_w := Some 60, stored_h := Some 10\<rparr>)"
  shows "render (Suc n) R a (0, 0) (H, L) =
           Inr (H4(a \<mapsto> ob\<lparr>stored_w := Some 70, stored_h := Some 50\<rparr>),
                L2 @ [call_set_dimensions (70, 50)]) \<and>
         set_dimensions_calls (L2 @ [call_set_dimensions (70, 50)]) =
           set_dimensions_calls L2 @ [(70, 50)]"
proof -
  let ?H0 = "H(a \<mapsto> ob\<lparr>stored_w := Some 10, stored_h := Some 10\<rparr>)"
  have s1: "set_width H a 10 = Inr (H(a \<mapsto> ob\<lparr>stored_w := Some 10\<rparr>))"
    using assms(1) by (simp add: set_width_def)
  have s2: "set_height (H(a \<mapsto> ob\<lparr>stored_w := Some 10\<rparr>)) a 10 = Inr ?H0"
    using assms(2) by (simp add: set_height_def)
  have ch: "children_of ?H0 a = [(c, (0, 0))]" using assms(4) by (simp add: children_of_def)
  have r1: "ob\<lparr>stored_h := Some 10, stored_w := Some 60\<rparr> = ob\<lparr>stored_w := Some 60, stored_h := Some 10\<rparr>"
    by (cases ob) simp
  have w3: "set_width H3 a 60 = Inr (H3(a \<mapsto> ob\<lparr>stored_w := Some 60, stored_h := Some 10\<rparr>))"
    using assms(7,9) by (simp add: set_width_def r1)
  have h4: "set_height H4 a 40 = Inr (H4(a \<mapsto> ob\<lparr>stored_w := Some 60, stored_h := Some 40\<rparr>))"
    using assms(11,2) by (simp add: set_height_def)
  have loop: "Canvas_render_loop (prepare n R) (render n R) (width n) (height n) a (10, 10)
                [(c, (0, 0))] (?H0, L) =
              Inr (H4(a \<mapsto> ob\<lparr>stored_w := Some 60, stored_h := Some 40\<rparr>), L2)"
    using assms(5-11) w3 h4
    by (simp add: P_add_def Object_width_def Object_height_def)
  have fin: "render (Suc n) R a (0, 0) (H, L) =
      and_then (Canvas_render_loop (prepare n R) (render n R) (width n) (height n) a (10, 10)
                [(c, (0, 0))] (?H0, L)) (\<lambda>S3.
         and_then (Object_width (fst S3) a) (\<lambda>(sw, H4).
         and_then (set_width H4 a (sw + 10)) (\<lambda>H5.
         and_then (Object_height H5 a) (\<lambda>(sh, H6).
         and_then (set_height H6 a (sh + 10)) (\<lambda>H7.
         and_then (Object_width H7 a) (\<lambda>(fw, H8).
         and_then (Object_height H8 a) (\<lambda>(fh, H9).
         Inr (H9, snd S3 @ [call_set_dimensions (fw, fh)]))))))))"
    using assms(1-3) s1 s2 ch by (simp add: Canvas_render_def P_add_scalar_def)
  have res: "render (Suc n) R a (0, 0) (H, L) =
           Inr (H4(a \<mapsto> ob\<lparr>stored_w := Some 70, stored_h := Some 50\<rparr>),
                L2 @ [call_set_dimensions (70, 50)])"
    unfolding fin loop using assms(2)
    by (simp add: Object_width_def Object_height_def set_width_def set_height_def)
  have "set_dimensions_calls (L2 @ [call_set_dimensions (70, 50)]) =
           set_dimensions_calls L2 @ [(70, 50)]"
    by (simp add: set_dimensions_calls_append)
  with res show ?thesis by simp
qed

lemma canvas_scene_heap: "canvas_scene = Inr canvas_heap"
  by (auto simp: canvas_scene_def canvas_heap_def new_Rectangle_def new_Canvas_def
      Object_init_def initial_world_def modify_def add_def rect_obj_def layout_obj_def Let_def
      fun_upd_twist)

theorem Canvas_single_child_witness:
  "and_then canvas_scene (\<lambda>H. render 2 fixed_bbox 1 (0, 0) (H, [])) =
     Inr (canvas_heap(1 \<mapsto> (layout_obj Canvas [(0, (0, 0))])\<lparr>stored_w := Some 70, stored_h := Some 50\<rparr>),
          [call_rectangle (10, 10) (60, 40) Style_default, call_set_dimensions (70, 50)]) \<and>
   set_dimensions_calls [call_rectangle (10, 10) (60, 40) Style_default, call_set_dimensions (70, 50)] =
     [(70, 50)]"
proof -
  let ?cv = "layout_obj Canvas [(0, (0, 0))]"
  let ?H0 = "canvas_heap(1 \<mapsto> ?cv\<lparr>stored_w := Some 10, stored_h := Some 10\<rparr>)"
  let ?H1 = "canvas_heap(1 \<mapsto> ?cv\<lparr>stored_w := Some 60, stored_h := Some 10\<rparr>)"
  have a1: "canvas_heap 1 = Some ?cv" by (simp add: canvas_heap_def)
  have a2: "kind_of ?cv = Canvas" "padding (style ?cv) = 10" "children ?cv = [(0, (0, 0))]"
    by (simp_all add: layout_obj_def Style_default_def)
  have r0: "?H0 0 = Some (rect_obj 50 30 (Some 1))" "?H1 0 = Some (rect_obj 50 30 (Some 1))"
    by (simp_all add: canvas_heap_def)
  have a5: "prepare 1 fixed_bbox 0 (?H0, []) = Inr (?H0, [])"
    using r0 by (simp add: Object_prepare_def children_of_def rect_obj_def)
  have a6: "render 1 fixed_bbox 0 (10, 10) (?H0, []) =
              Inr (?H0, [call_rectangle (10, 10) (60, 40) Style_default])"
    using r0 by (simp add: Rectangle_render_def Object_render_def children_of_def rect_obj_def
        read_w_def read_h_def)
  have a7: "?H0 1 = Some (?cv\<lparr>stored_w := Some 10, stored_h := Some 10\<rparr>)" by simp
  have a8: "width 1 ?H0 0 = Inr (50, ?H0)"
    using r0 by (simp add: Object_width_def rect_obj_def)
  have a10: "height 1 (?H0(1 \<mapsto> ?cv\<lparr>stored_w := Some 60, stored_h := Some 10\<rparr>)) 0 = Inr (30, ?H1)"
    using r0 by (simp add: Object_height_def rect_obj_def)
  have a11: "?H1 1 = Some (?cv\<lparr>stored_w := Some 60, stored_h := Some 10\<rparr>)" by simp
  note t = Canvas_single_child[where H = canvas_heap and a = 1 and n = 1 and R = fixed_bbox
      and c = 0 and L = "[]", OF a1 a2 a5 a6 a7 a8 refl a10 a11]
  have two: "(2::nat) = Suc 1" by simp
  from t have e: "render (Suc 1) fixed_bbox 1 (0, 0) (canvas_heap, []) =
      Inr (canvas_heap(1 \<mapsto> ?cv\<lparr>stored_w := Some 70, stored_h := Some 50\<rparr>),
           [call_rectangle (10, 10) (60, 40) Style_default, call_set_dimensions (70, 50)])"
    by (simp only: fun_upd_upd append.simps)
  have c: "set_dimensions_calls [call_rectangle (10, 10) (60, 40) Style_default,
             call_set_dimensions (70, 50)] = [(70, 50)]" by simp
  show ?thesis
    unfolding canvas_scene_heap and_then.simps two using e c by (rule conjI)
qed

section \<open>Derived dimensions\<close>

lemma loops_are_dim_loop:
  "VLayout_width_loop g a cs H = dim_loop max X g a cs H"
  "VLayout_height_loop g a cs H = dim_loop (+) Y g a cs H"
  "HLayout_width_loop g a cs H = dim_loop (+) X g a cs H"
  "HLayout_height_loop g a cs H = dim_loop max Y g a cs H"
  by (induction cs arbitrary: H) (simp_all cong: sum.case_cong)

lemma width_dimension: "width n = dimension n X"
proof (induction n)
  case 0
  show ?case by (intro ext) simp
next
  case (Suc n)
  show ?case
    by (intro ext)
      (auto simp: Suc VLayout_width_def HLayout_width_def loops_are_dim_loop return_w_def
        derived_def combine_def Object_width_def split: option.splits)
qed

lemma height_dimension: "height n = dimension n Y"
proof (induction n)
  case 0
  show ?case by (intro ext) simp
next
  case (Suc n)
  show ?case
    by (intro ext)
      (auto simp: Suc VLayout_height_def HLayout_height_def loops_are_dim_loop return_h_def
        derived_def combine_def Object_height_def split: option.splits)
qed

lemma and_then_Inr: "and_then m f = Inr y \<longleftrightarrow> (\<exists>x. m = Inr x \<and> f x = Inr y)"
  by (cases m) auto

lemma write_dim_Some: "H a = Some oa \<Longrightarrow> write_dim ax H a v = H(a \<mapsto> set_stored ax v oa)"
  by (cases ax) (simp_all add: write_w_def write_h_def)

lemma read_dim_Some:
  "H a = Some oa \<Longrightarrow>
   read_dim ax H a = (case stored ax oa of None \<Rightarrow> Inl TypeError | Some v \<Rightarrow> Inr v)"
  by (cases ax) (simp_all add: read_w_def read_h_def)

lemma set_stored_simps [simp]:
  "kind_of (set_stored ax v ob) = kind_of ob" "children (set_stored ax v ob) = children ob"
  "stored ax (set_stored ax v ob) = v"
  by (cases ax; simp)+

lemma same_tree_refl: "same_tree H H"
  by (simp add: same_tree_def)

lemma same_tree_trans: "same_tree H G \<Longrightarrow> same_tree G K \<Longrightarrow> same_tree H K"
  unfolding same_tree_def
proof (intro allI conjI impI)
  fix b assume a: "\<forall>b. (H b = None \<longrightarrow> G b = None) \<and>
          (\<forall>ob. H b = Some ob \<longrightarrow>
             (\<exists>ob'. G b = Some ob' \<and> kind_of ob' = kind_of ob \<and> children ob' = children ob \<and>
                    (\<not> derived (kind_of ob) \<longrightarrow> ob' = ob)))"
    and b: "\<forall>b. (G b = None \<longrightarrow> K b = None) \<and>
          (\<forall>ob. G b = Some ob \<longrightarrow>
             (\<exists>ob'. K b = Some ob' \<and> kind_of ob' = kind_of ob \<and> children ob' = children ob \<and>
                    (\<not> derived (kind_of ob) \<longrightarrow> ob' = ob)))"
  { assume "H b = None" with a b show "K b = None" by simp }
  { fix ob assume h: "H b = Some ob"
    with a obtain ob' where 1: "G b = Some ob'" "kind_of ob' = kind_of ob" "children ob' = children ob"
      "\<not> derived (kind_of ob) \<longrightarrow> ob' = ob" by blast
    with b obtain ob'' where 2: "K b = Some ob''" "kind_of ob'' = kind_of ob'" "children ob'' = children ob'"
      "\<not> derived (kind_of ob') \<longrightarrow> ob'' = ob'" by blast
    from 1 2 show "\<exists>ob'. K b = Some ob' \<and> kind_of ob' = kind_of ob \<and> children ob' = children ob \<and>
                    (\<not> derived (kind_of ob) \<longrightarrow> ob' = ob)" by auto }
qed

lemma same_tree_write:
  "H a = Some oa \<Longrightarrow> derived (kind_of oa) \<Longrightarrow> same_tree H (write_dim ax H a v)"
  by (auto simp: write_dim_Some same_tree_def)

lemma ranked_same_tree: "ranked rk H \<Longrightarrow> same_tree H G \<Longrightarrow> ranked rk G"
  unfolding ranked_def same_tree_def
proof (intro allI impI)
  fix a ob
  assume r: "\<forall>a ob. H a = Some ob \<longrightarrow> (\<forall>ch\<in>set (children ob). rk (fst ch) < rk a)"
    and s: "\<forall>b. (H b = None \<longrightarrow> G b = None) \<and>
          (\<forall>ob. H b = Some ob \<longrightarrow>
             (\<exists>ob'. G b = Some ob' \<and> kind_of ob' = kind_of ob \<and> children ob' = children ob \<and>
                    (\<not> derived (kind_of ob) \<longrightarrow> ob' = ob)))"
    and g: "G a = Some ob"
  from s g obtain ob0 where h: "H a = Some ob0" by (cases "H a") auto
  with s g have "children ob = children ob0" by fastforce
  with r h show "\<forall>ch\<in>set (children ob). rk (fst ch) < rk a" by simp
qed

lemma dim_loop_frame:
  assumes g: "\<And>G c v G'. ranked rk G \<Longrightarrow> g G c = Inr (v, G') \<Longrightarrow>
                same_tree G G' \<and> (\<forall>b. rk c < rk b \<longrightarrow> G' b = G b)"
  shows "(\<forall>ch\<in>set cs. rk (fst ch) < rk a) \<Longrightarrow> ranked rk G \<Longrightarrow> G a = Some oa \<Longrightarrow>
         derived (kind_of oa) \<Longrightarrow> dim_loop f ax g a cs G = Inr G' \<Longrightarrow>
         same_tree G G' \<and> (\<forall>b. rk a < rk b \<longrightarrow> G' b = G b)"
proof (induction cs arbitrary: G oa)
  case Nil
  then show ?case by (simp add: same_tree_refl)
next
  case (Cons ch rest)
  from Cons.prems(5) obtain v G1 cur where
    1: "g G (fst ch) = Inr (v, G1)" and 2: "read_dim ax G a = Inr cur"
    and 3: "dim_loop f ax g a rest (write_dim ax G1 a (Some (f cur (v + along ax (snd ch))))) = Inr G'"
    by (auto simp: and_then_Inr)
  let ?G2 = "write_dim ax G1 a (Some (f cur (v + along ax (snd ch))))"
  from g[OF Cons.prems(2) 1] have st1: "same_tree G G1" and fr1: "\<forall>b. rk (fst ch) < rk b \<longrightarrow> G1 b = G b"
    by auto
  have rc: "rk (fst ch) < rk a" using Cons.prems(1) by simp
  with fr1 Cons.prems(3) have a1: "G1 a = Some oa" by simp
  have st2: "same_tree G1 ?G2" using a1 Cons.prems(4) by (rule same_tree_write)
  have a2: "?G2 a = Some (set_stored ax (Some (f cur (v + along ax (snd ch)))) oa)"
    using a1 by (simp add: write_dim_Some)
  have r2: "ranked rk ?G2"
    using Cons.prems(2) st1 st2 by (blast intro: ranked_same_tree)
  have "same_tree ?G2 G' \<and> (\<forall>b. rk a < rk b \<longrightarrow> G' b = ?G2 b)"
    using Cons.IH[OF _ r2 a2 _ 3] Cons.prems(1,4) by simp
  moreover have "\<forall>b. rk a < rk b \<longrightarrow> ?G2 b = G b"
    using fr1 rc a1 by (auto simp: write_dim_Some)
  ultimately show ?case using st1 st2 by (auto intro: same_tree_trans)
qed

lemma dimension_frame:
  "ranked rk H \<Longrightarrow> dimension n ax H a = Inr (v, H') \<Longrightarrow>
   same_tree H H' \<and> (\<forall>b. rk a < rk b \<longrightarrow> H' b = H b)"
proof (induction n arbitrary: H a v H')
  case 0
  then show ?case by simp
next
  case (Suc n)
  from Suc.prems(2) obtain ob where ob: "H a = Some ob" by (cases "H a") auto
  show ?case
  proof (cases "derived (kind_of ob)")
    case False
    with Suc.prems(2) ob have "H' = H" by (auto split: option.splits)
    then show ?thesis by (simp add: same_tree_refl)
  next
    case True
    let ?G = "write_dim ax H a (Some 0)"
    from Suc.prems(2) ob True have
      l: "dim_loop (combine ax (kind_of ob)) ax (dimension n ax) a (children ob) ?G = Inr H'"
      by (auto simp: and_then_Inr children_of_def)
    have st: "same_tree H ?G" using ob True by (rule same_tree_write)
    have rG: "ranked rk ?G" using Suc.prems(1) st by (rule ranked_same_tree)
    have aG: "?G a = Some (set_stored ax (Some 0) ob)" using ob by (simp add: write_dim_Some)
    have rks: "\<forall>ch\<in>set (children ob). rk (fst ch) < rk a"
      using Suc.prems(1) ob by (auto simp: ranked_def)
    have "same_tree ?G H' \<and> (\<forall>b. rk a < rk b \<longrightarrow> H' b = ?G b)"
      using dim_loop_frame[where g = "dimension n ax" and rk = rk, OF Suc.IH rks rG aG _ l] True
      by simp
    moreover have "\<forall>b. rk a < rk b \<longrightarrow> ?G b = H b" using ob by (auto simp: write_dim_Some)
    ultimately show ?thesis using st by (auto intro: same_tree_trans)
  qed
qed

lemma spec_dim_cong: "same_tree H G \<Longrightarrow> spec_dim n ax H a = spec_dim n ax G a"
proof (induction n arbitrary: a)
  case 0
  show ?case by simp
next
  case (Suc n)
  have f: "spec_dim n ax H = spec_dim n ax G" using Suc by (intro ext) simp
  show ?case
  proof (cases "H a")
    case None
    with Suc.prems have "G a = None" by (simp add: same_tree_def)
    with None show ?thesis by simp
  next
    case (Some ob)
    with Suc.prems obtain ob' where "G a = Some ob'" "kind_of ob' = kind_of ob"
      "children ob' = children ob" "\<not> derived (kind_of ob) \<longrightarrow> ob' = ob"
      unfolding same_tree_def by blast
    with Some f show ?thesis by auto
  qed
qed

lemma dim_loop_value:
  assumes g: "\<And>G c v G'. ranked rk G \<Longrightarrow> g G c = Inr (v, G') \<Longrightarrow>
                same_tree G G' \<and> (\<forall>b. rk c < rk b \<longrightarrow> G' b = G b)"
    and val: "\<And>G c. ranked rk G \<Longrightarrow> same_tree H G \<Longrightarrow> value_of (g G c) = s c"
  shows "(\<forall>ch\<in>set cs. rk (fst ch) < rk a) \<Longrightarrow> ranked rk G \<Longrightarrow> same_tree H G \<Longrightarrow>
         G a = Some oa \<Longrightarrow> derived (kind_of oa) \<Longrightarrow> stored ax oa = Some acc \<Longrightarrow>
         value_of (and_then (dim_loop f ax g a cs G)
                           (\<lambda>G'. and_then (read_dim ax G' a) (\<lambda>v. Inr (v, G')))) =
           fold_children f ax s cs acc"
proof (induction cs arbitrary: G oa acc)
  case Nil
  then show ?case by (simp add: read_dim_Some)
next
  case (Cons ch rest)
  have sv: "value_of (g G (fst ch)) = s (fst ch)" using val Cons.prems(2,3) by simp
  have rd: "read_dim ax G a = Inr acc" using Cons.prems(4,6) by (simp add: read_dim_Some)
  show ?case
  proof (cases "g G (fst ch)")
    case (Inl e)
    with sv show ?thesis by (cases "s (fst ch)") auto
  next
    case (Inr r)
    obtain v G1 where r: "r = (v, G1)" by (cases r)
    with Inr have 1: "g G (fst ch) = Inr (v, G1)" by simp
    with sv have s1: "s (fst ch) = Inr v" by simp
    let ?G2 = "write_dim ax G1 a (Some (f acc (v + along ax (snd ch))))"
    from g[OF Cons.prems(2) 1] have st1: "same_tree G G1"
      and fr1: "\<forall>b. rk (fst ch) < rk b \<longrightarrow> G1 b = G b" by auto
    have rc: "rk (fst ch) < rk a" using Cons.prems(1) by simp
    with fr1 Cons.prems(4) have a1: "G1 a = Some oa" by simp
    have st2: "same_tree G1 ?G2" using a1 Cons.prems(5) by (rule same_tree_write)
    have a2: "?G2 a = Some (set_stored ax (Some (f acc (v + along ax (snd ch)))) oa)"
      using a1 by (simp add: write_dim_Some)
    have r2: "ranked rk ?G2"
      using Cons.prems(2) st1 st2 by (blast intro: ranked_same_tree)
    have sH: "same_tree H ?G2"
      using Cons.prems(3) st1 st2 by (blast intro: same_tree_trans)
    have "value_of (and_then (dim_loop f ax g a rest ?G2)
                           (\<lambda>G'. and_then (read_dim ax G' a) (\<lambda>v. Inr (v, G')))) =
           fold_children f ax s rest (f acc (v + along ax (snd ch)))"
      using Cons.IH[OF _ r2 sH a2] Cons.prems(1,5) by simp
    with 1 rd s1 show ?thesis by simp
  qed
qed

lemma dimension_value:
  "ranked rk H \<Longrightarrow> value_of (dimension n ax H a) = spec_dim n ax H a"
proof (induction n arbitrary: H a)
  case 0
  show ?case by simp
next
  case (Suc n)
  show ?case
  proof (cases "H a")
    case None
    then show ?thesis by simp
  next
    case (Some ob)
    show ?thesis
    proof (cases "derived (kind_of ob)")
      case False
      with Some show ?thesis by (auto split: option.splits)
    next
      case True
      let ?G = "write_dim ax H a (Some 0)"
      have st: "same_tree H ?G" using Some True by (rule same_tree_write)
      have rG: "ranked rk ?G" using Suc.prems st by (rule ranked_same_tree)
      have aG: "?G a = Some (set_stored ax (Some 0) ob)" using Some by (simp add: write_dim_Some)
      have rks: "\<forall>ch\<in>set (children ob). rk (fst ch) < rk a"
        using Suc.prems Some by (auto simp: ranked_def)
      have val: "\<And>G c. ranked rk G \<Longrightarrow> same_tree H G \<Longrightarrow>
                  value_of (dimension n ax G c) = spec_dim n ax H c"
        using Suc.IH spec_dim_cong by simp
      have "value_of (and_then (dim_loop (combine ax (kind_of ob)) ax (dimension n ax) a
                                        (children ob) ?G)
                           (\<lambda>G'. and_then (read_dim ax G' a) (\<lambda>v. Inr (v, G')))) =
           fold_children (combine ax (kind_of ob)) ax (spec_dim n ax H) (children ob) 0"
        using dim_loop_value[where g = "dimension n ax" and rk = rk and H = H
            and s = "spec_dim n ax H", OF dimension_frame val rks rG st aG]
          True by simp
      with Some True show ?thesis by (simp add: children_of_def)
    qed
  qed
qed

lemma fold_children_values:
  "list_all2 (\<lambda>ch v. s (fst ch) = Inr v) cs vs \<Longrightarrow>
   fold_children f ax s cs acc = Inr (foldl f acc (map2 (\<lambda>ch v. v + along ax (snd ch)) cs vs))"
  by (induction cs vs arbitrary: acc rule: list_all2_induct) auto

lemma foldl_max_Max: "foldl max acc xs = Max (set ((acc::int) # xs))"
proof -
  have "(\<lambda>x s. max s x) = (max :: int \<Rightarrow> int \<Rightarrow> int)" by (intro ext) (simp add: max.commute)
  then show ?thesis by (simp only: foldl_conv_fold Max.set_eq_fold)
qed

lemma foldl_plus_sum: "foldl (+) acc xs = (acc::int) + sum_list xs"
  by (induction xs arbitrary: acc) auto

lemma stacked_dimension:
  assumes "ranked rk H" and "H a = Some ob" and "derived (kind_of ob)"
    and "list_all2 (\<lambda>ch v. value_of (dimension n ax H (fst ch)) = Inr v) (children ob) vs"
  shows "value_of (dimension (Suc n) ax H a) =
           Inr (foldl (combine ax (kind_of ob)) 0
                  (map2 (\<lambda>ch v. v + along ax (snd ch)) (children ob) vs))"
proof -
  have "list_all2 (\<lambda>ch v. spec_dim n ax H (fst ch) = Inr v) (children ob) vs"
    using assms(4) dimension_value[OF assms(1)] by simp
  then have "fold_children (combine ax (kind_of ob)) ax (spec_dim n ax H) (children ob) 0 =
      Inr (foldl (combine ax (kind_of ob)) 0 (map2 (\<lambda>ch v. v + along ax (snd ch)) (children ob) vs))"
    by (rule fold_children_values)
  then have "spec_dim (Suc n) ax H a =
      Inr (foldl (combine ax (kind_of ob)) 0 (map2 (\<lambda>ch v. v + along ax (snd ch)) (children ob) vs))"
    using assms(2,3) by simp
  then show ?thesis using dimension_value[OF assms(1), of "Suc n" ax a] by simp
qed

lemma V_width:
  assumes "ranked rk H" and "H a = Some ob" and "kind_of ob = VLayout"
    and "list_all2 (\<lambda>ch v. value_of (width n H (fst ch)) = Inr v) (children ob) ws"
  shows "value_of (width (Suc n) H a) =
           Inr (Max (set (0 # map2 (\<lambda>ch v. v + fst (snd ch)) (children ob) ws)))"
  using stacked_dimension[where ax = X, OF assms(1,2)] assms(3,4)
  by (simp add: width_dimension derived_def combine_def foldl_max_Max)

lemma V_height:
  assumes "ranked rk H" and "H a = Some ob" and "kind_of ob = VLayout"
    and "list_all2 (\<lambda>ch v. value_of (height n H (fst ch)) = Inr v) (children ob) hs"
  shows "value_of (height (Suc n) H a) =
           Inr (sum_list (map2 (\<lambda>ch v. v + snd (snd ch)) (children ob) hs))"
  using stacked_dimension[where ax = Y, OF assms(1,2)] assms(3,4)
  by (simp add: height_dimension derived_def combine_def foldl_plus_sum)

lemma H_width:
  assumes "ranked rk H" and "H a = Some ob" and "kind_of ob = HLayout \<or> kind_of ob = Table"
    and "list_all2 (\<lambda>ch v. value_of (width n H (fst ch)) = Inr v) (children ob) ws"
  shows "value_of (width (Suc n) H a) =
           Inr (sum_list (map2 (\<lambda>ch v. v + fst (snd ch)) (children ob) ws))"
  using stacked_dimension[where ax = X, OF assms(1,2)] assms(3,4)
  by (auto simp: width_dimension derived_def combine_def foldl_plus_sum)

lemma H_height:
  assumes "ranked rk H" and "H a = Some ob" and "kind_of ob = HLayout \<or> kind_of ob = Table"
    and "list_all2 (\<lambda>ch v. value_of (height n H (fst ch)) = Inr v) (children ob) hs"
  shows "value_of (height (Suc n) H a) =
           Inr (Max (set (0 # map2 (\<lambda>ch v. v + snd (snd ch)) (children ob) hs)))"
  using stacked_dimension[where ax = Y, OF assms(1,2)] assms(3,4)
  by (auto simp: height_dimension derived_def combine_def foldl_max_Max)

lemma set_width_shape:
  assumes "set_width H c v = Inr H2" and "H a = Some ob"
  shows "\<exists>ob2. H2 a = Some ob2 \<and> kind_of ob2 = kind_of ob \<and> children ob2 = children ob"
  using assms by (auto simp: set_width_def split: option.splits)

lemma ranked_set_width:
  assumes "set_width H c v = Inr H2" and "ranked rk H"
  shows "ranked rk H2"
  using assms by (fastforce simp: set_width_def ranked_def split: option.splits if_splits)

text \<open>
  Claim C1 (amended). In an acyclic object graph, let reading the width of the children
  of a stacking layout return \<open>ws\<close> and reading their heights return \<open>hs\<close>. Reading
  the width of a VLayout then returns \<open>max(0, max_i (w_i + o_i.x))\<close> and its height
  \<open>sum_i (h_i + o_i.y)\<close>; for an HLayout or a Table the width is the sum along x and the
  height \<open>max(0, max_i (h_i + o_i.y))\<close>. With no children both are 0. The values are
  recomputed on every read: after any assignment \<open>c.width = v\<close> in the heap the next read
  returns the same formula over the widths the children then report.
\<close>
theorem layout_dimensions:
  assumes "ranked rk H" and "H a = Some ob"
    and "list_all2 (\<lambda>ch v. value_of (width n H (fst ch)) = Inr v) (children ob) ws"
    and "list_all2 (\<lambda>ch v. value_of (height n H (fst ch)) = Inr v) (children ob) hs"
  shows "(kind_of ob = VLayout \<longrightarrow>
            value_of (width (Suc n) H a) =
              Inr (Max (set (0 # map2 (\<lambda>ch v. v + fst (snd ch)) (children ob) ws))) \<and>
            value_of (height (Suc n) H a) =
              Inr (sum_list (map2 (\<lambda>ch v. v + snd (snd ch)) (children ob) hs))) \<and>
         (kind_of ob = HLayout \<or> kind_of ob = Table \<longrightarrow>
            value_of (width (Suc n) H a) =
              Inr (sum_list (map2 (\<lambda>ch v. v + fst (snd ch)) (children ob) ws)) \<and>
            value_of (height (Suc n) H a) =
              Inr (Max (set (0 # map2 (\<lambda>ch v. v + snd (snd ch)) (children ob) hs)))) \<and>
         (derived (kind_of ob) \<and> children ob = [] \<longrightarrow>
            value_of (width (Suc n) H a) = Inr 0 \<and> value_of (height (Suc n) H a) = Inr 0) \<and>
         (\<forall>c v H2 ws2.
            set_width H c v = Inr H2 \<and>
            list_all2 (\<lambda>ch w. value_of (width n H2 (fst ch)) = Inr w) (children ob) ws2 \<longrightarrow>
            (kind_of ob = VLayout \<longrightarrow>
               value_of (width (Suc n) H2 a) =
                 Inr (Max (set (0 # map2 (\<lambda>ch w. w + fst (snd ch)) (children ob) ws2)))) \<and>
            (kind_of ob = HLayout \<or> kind_of ob = Table \<longrightarrow>
               value_of (width (Suc n) H2 a) =
                 Inr (sum_list (map2 (\<lambda>ch w. w + fst (snd ch)) (children ob) ws2))))"
proof -
  have 1: "kind_of ob = VLayout \<longrightarrow>
            value_of (width (Suc n) H a) =
              Inr (Max (set (0 # map2 (\<lambda>ch v. v + fst (snd ch)) (children ob) ws))) \<and>
            value_of (height (Suc n) H a) =
              Inr (sum_list (map2 (\<lambda>ch v. v + snd (snd ch)) (children ob) hs))"
    using V_width[OF assms(1,2) _ assms(3)] V_height[OF assms(1,2) _ assms(4)] by blast
  have 2: "kind_of ob = HLayout \<or> kind_of ob = Table \<longrightarrow>
            value_of (width (Suc n) H a) =
              Inr (sum_list (map2 (\<lambda>ch v. v + fst (snd ch)) (children ob) ws)) \<and>
            value_of (height (Suc n) H a) =
              Inr (Max (set (0 # map2 (\<lambda>ch v. v + snd (snd ch)) (children ob) hs)))"
    using H_width[OF assms(1,2) _ assms(3)] H_height[OF assms(1,2) _ assms(4)] by blast
  have 3: "derived (kind_of ob) \<and> children ob = [] \<longrightarrow>
            value_of (width (Suc n) H a) = Inr 0 \<and> value_of (height (Suc n) H a) = Inr 0"
  proof
    assume e: "derived (kind_of ob) \<and> children ob = []"
    then have "ws = []" "hs = []" using assms(3,4) by auto
    with 1 2 e show "value_of (width (Suc n) H a) = Inr 0 \<and> value_of (height (Suc n) H a) = Inr 0"
      by (auto simp: derived_def)
  qed
  have 4: "\<forall>c v H2 ws2.
            set_width H c v = Inr H2 \<and>
            list_all2 (\<lambda>ch w. value_of (width n H2 (fst ch)) = Inr w) (children ob) ws2 \<longrightarrow>
            (kind_of ob = VLayout \<longrightarrow>
               value_of (width (Suc n) H2 a) =
                 Inr (Max (set (0 # map2 (\<lambda>ch w. w + fst (snd ch)) (children ob) ws2)))) \<and>
            (kind_of ob = HLayout \<or> kind_of ob = Table \<longrightarrow>
               value_of (width (Suc n) H2 a) =
                 Inr (sum_list (map2 (\<lambda>ch w. w + fst (snd ch)) (children ob) ws2)))"
  proof (intro allI impI, elim conjE)
    fix c v H2 ws2
    assume s: "set_width H c v = Inr H2"
      and l: "list_all2 (\<lambda>ch w. value_of (width n H2 (fst ch)) = Inr w) (children ob) ws2"
    from set_width_shape[OF s assms(2)] obtain ob2 where
      o: "H2 a = Some ob2" "kind_of ob2 = kind_of ob" "children ob2 = children ob" by blast
    have r: "ranked rk H2" using s assms(1) by (rule ranked_set_width)
    from o l have l2: "list_all2 (\<lambda>ch w. value_of (width n H2 (fst ch)) = Inr w) (children ob2) ws2"
      by simp
    show "(kind_of ob = VLayout \<longrightarrow>
               value_of (width (Suc n) H2 a) =
                 Inr (Max (set (0 # map2 (\<lambda>ch w. w + fst (snd ch)) (children ob) ws2)))) \<and>
            (kind_of ob = HLayout \<or> kind_of ob = Table \<longrightarrow>
               value_of (width (Suc n) H2 a) =
                 Inr (sum_list (map2 (\<lambda>ch w. w + fst (snd ch)) (children ob) ws2)))"
      using V_width[OF r o(1) _ l2] H_width[OF r o(1) _ l2] o(2,3) by auto
  qed
  from 1 2 3 4 show ?thesis by blast
qed

lemma neg_scene_heap:
  "neg_scene = Inr (Map.empty(0 \<mapsto> rect_obj 5 5 (Some 1), 1 \<mapsto> layout_obj VLayout [(0, (- 10, 0))]))"
  by (auto simp: neg_scene_def new_Rectangle_def new_VLayout_def
      Object_init_def initial_world_def modify_def add_def rect_obj_def layout_obj_def Let_def
      fun_upd_twist)

theorem layout_dimensions_witness:
  "value_of (and_then (scene (mk_VLayout CENTER) (7, 3)) (\<lambda>H. width 2 H 2)) = Inr 100 \<and>
   value_of (and_then (scene (mk_VLayout CENTER) (7, 3)) (\<lambda>H. height 2 H 2)) = Inr 23 \<and>
   value_of (and_then (scene (mk_VLayout CENTER) (7, 3))
               (\<lambda>H. and_then (set_width H 1 200) (\<lambda>H2. width 2 H2 2))) = Inr 207"
proof -
  let ?v = "layout_obj VLayout [(0, (0, 0)), (1, (7, 3))]"
  let ?H = "Map.empty(0 \<mapsto> rect_obj 100 10 (Some 2), 1 \<mapsto> rect_obj 10 10 (Some 2), 2 \<mapsto> ?v)"
  let ?H2 = "?H(1 \<mapsto> (rect_obj 10 10 (Some 2))\<lparr>stored_w := Some 200\<rparr>)"
  have r: "ranked (\<lambda>a. a) ?H"
    by (auto simp: ranked_def rect_obj_def layout_obj_def split: if_splits)
  have a: "?H 2 = Some ?v" by simp
  have k: "kind_of ?v = VLayout" "children ?v = [(0, (0, 0)), (1, (7, 3))]"
    by (simp_all add: layout_obj_def)
  have w: "value_of (width 1 ?H 0) = Inr 100" "value_of (width 1 ?H 1) = Inr 10"
    "value_of (height 1 ?H 0) = Inr 10" "value_of (height 1 ?H 1) = Inr 10"
    by (simp_all add: Object_width_def Object_height_def rect_obj_def)
  have ws: "list_all2 (\<lambda>ch v. value_of (width 1 ?H (fst ch)) = Inr v) (children ?v) [100, 10]"
    by (simp only: k list_all2_Cons list_all2_Nil fst_conv w simp_thms)
  have hs: "list_all2 (\<lambda>ch v. value_of (height 1 ?H (fst ch)) = Inr v) (children ?v) [10, 10]"
    by (simp only: k list_all2_Cons list_all2_Nil fst_conv w simp_thms)
  have s: "set_width ?H 1 200 = Inr ?H2" by (simp add: set_width_def)
  have w2: "value_of (width 1 ?H2 0) = Inr 100" "value_of (width 1 ?H2 1) = Inr 200"
    by (simp_all add: Object_width_def rect_obj_def)
  have ws2: "list_all2 (\<lambda>ch v. value_of (width 1 ?H2 (fst ch)) = Inr v) (children ?v) [100, 200]"
    by (simp only: k list_all2_Cons list_all2_Nil fst_conv w2 simp_thms)
  note t = layout_dimensions[where rk = "\<lambda>a. a" and H = ?H and a = 2 and n = 1, OF r a ws hs]
  have two: "(2::nat) = Suc 1" by simp
  from t k have 1: "value_of (width (Suc 1) ?H 2) = Inr 100" by simp
  from t k have 2: "value_of (height (Suc 1) ?H 2) = Inr 23" by simp
  from t have "kind_of ?v = VLayout \<longrightarrow> value_of (width (Suc 1) ?H2 2) =
      Inr (Max (set (0 # map2 (\<lambda>ch w. w + fst (snd ch)) (children ?v) [100, 200])))"
    using s ws2 by blast
  with k have 3: "value_of (width (Suc 1) ?H2 2) = Inr 207" by simp
  have f: "\<And>H a. width 2 H a = width (Suc 1) H a" "\<And>H a. height 2 H a = height (Suc 1) H a"
    by (simp_all add: numeral_2_eq_2)
  show ?thesis
    unfolding scene_V and_then.simps s f using 1 2 3 by (intro conjI)
qed

text \<open>
  Claim C1 as stated fails: a VLayout whose only child is 5 wide at offset (-10, 0) reports
  width 0, and \<open>max_i (c_i.width + o_i.x)\<close> is -5: the getter starts its maximum at 0.
\<close>
theorem VLayout_width_not_below_zero:
  "value_of (and_then neg_scene (\<lambda>H. width 1 H 0)) = Inr 5 \<and>
   value_of (and_then neg_scene (\<lambda>H. width 2 H 1)) = Inr 0 \<and>
   Max (set (map2 (\<lambda>ch v. v + fst (snd ch)) [(0 :: ref, (- 10, 0 :: int))] [5])) = (- 5 :: int)"
  by (simp add: neg_scene_heap numeral_2_eq_2 VLayout_width_def children_of_def write_w_def
      read_w_def return_w_def Object_width_def rect_obj_def layout_obj_def)

section \<open>Table.prepare\<close>

lemma Table_max_loop_dim:
  "Table_max_loop g a cs H = dim_loop max Y g a (map (\<lambda>ch. (fst ch, (0, 0))) cs) H"
  by (induction cs arbitrary: H) (simp_all cong: sum.case_cong)

lemma set_height_cell:
  assumes "cell_ok G c"
  shows "\<exists>cb cb'. G c = Some cb \<and> set_height G c m = Inr (G(c \<mapsto> cb')) \<and> stored_h cb' = Some m \<and>
           kind_of cb' = kind_of cb \<and> stored_w cb' = stored_w cb \<and>
           (children cb' = [] \<longleftrightarrow> children cb = [])"
proof -
  from assms obtain cb where cb: "G c = Some cb"
    and tb: "kind_of cb = TextBox \<longrightarrow> children cb \<noteq> [] \<and> stored_w cb \<noteq> None"
    by (auto simp: cell_ok_def)
  show ?thesis
  proof (cases "kind_of cb = TextBox")
    case False
    with cb show ?thesis by (auto simp: set_height_def)
  next
    case True
    with tb obtain ch rest sw where c: "children cb = ch # rest" "stored_w cb = Some sw"
      by (cases "children cb") auto
    let ?cb1 = "cb\<lparr>stored_h := Some m\<rparr>"
    let ?cb' = "?cb1\<lparr>children := (fst ch, (sw div 2, m div 2)) # rest\<rparr>"
    have "set_height G c m = Inr (G(c \<mapsto> ?cb'))"
      using cb True c
      by (simp add: set_height_def TextBox_recenter_def Object_width_def Object_height_def)
    with cb c show ?thesis by (intro exI[of _ cb] exI[of _ ?cb']) simp
  qed
qed

lemma Table_set_loop_all:
  assumes "G a = Some oa" and "stored_h oa = Some m"
  shows "(\<forall>ch\<in>set cs. fst ch \<noteq> a \<and> cell_ok G (fst ch)) \<Longrightarrow>
         \<exists>G'. Table_set_loop a cs G = Inr G' \<and> G' a = Some oa \<and>
           (\<forall>b cb. G b = Some cb \<longrightarrow> (\<exists>cb'. G' b = Some cb' \<and> kind_of cb' = kind_of cb \<and>
                     (stored_h cb = Some m \<longrightarrow> stored_h cb' = Some m))) \<and>
           (\<forall>ch\<in>set cs. \<exists>cb. G' (fst ch) = Some cb \<and> stored_h cb = Some m)"
  using assms
proof (induction cs arbitrary: G)
  case Nil
  then show ?case by simp
next
  case (Cons ch rest)
  have ca: "fst ch \<noteq> a" and ok: "cell_ok G (fst ch)" using Cons.prems(1) by auto
  from set_height_cell[OF ok, of m] obtain cb cb' where
    s: "G (fst ch) = Some cb" "set_height G (fst ch) m = Inr (G(fst ch \<mapsto> cb'))"
       "stored_h cb' = Some m" "kind_of cb' = kind_of cb" "stored_w cb' = stored_w cb"
       "children cb' = [] \<longleftrightarrow> children cb = []" by blast
  let ?G1 = "G(fst ch \<mapsto> cb')"
  have rd: "read_h G a = Inr m" using Cons.prems(2,3) by (simp add: read_h_def)
  have a1: "?G1 a = Some oa" using ca Cons.prems(2) by simp
  have ok1: "\<forall>ch'\<in>set rest. fst ch' \<noteq> a \<and> cell_ok ?G1 (fst ch')"
    using Cons.prems(1) s by (auto simp: cell_ok_def)
  from Cons.IH[OF ok1 a1 Cons.prems(3)] obtain G' where
    g: "Table_set_loop a rest ?G1 = Inr G'" "G' a = Some oa"
       "\<forall>b cb. ?G1 b = Some cb \<longrightarrow> (\<exists>cb'. G' b = Some cb' \<and> kind_of cb' = kind_of cb \<and>
                     (stored_h cb = Some m \<longrightarrow> stored_h cb' = Some m))"
       "\<forall>ch\<in>set rest. \<exists>cb. G' (fst ch) = Some cb \<and> stored_h cb = Some m" by blast
  have g1: "?G1 (fst ch) = Some cb'" by simp
  from g(3)[rule_format, OF g1] s(3) obtain cbx where
    x: "G' (fst ch) = Some cbx" "kind_of cbx = kind_of cb'" "stored_h cbx = Some m" by auto
  have 1: "Table_set_loop a (ch # rest) G = Inr G'" using rd s(2) g(1) by simp
  have 3: "\<forall>b cb0. G b = Some cb0 \<longrightarrow> (\<exists>cb1. G' b = Some cb1 \<and> kind_of cb1 = kind_of cb0 \<and>
                     (stored_h cb0 = Some m \<longrightarrow> stored_h cb1 = Some m))"
  proof (intro allI impI)
    fix b cb0 assume b: "G b = Some cb0"
    show "\<exists>cb1. G' b = Some cb1 \<and> kind_of cb1 = kind_of cb0 \<and>
                     (stored_h cb0 = Some m \<longrightarrow> stored_h cb1 = Some m)"
    proof (cases "b = fst ch")
      case True
      with b s(1) have "cb0 = cb" by simp
      with x True s(4) show ?thesis by simp
    next
      case False
      with b have "?G1 b = Some cb0" by simp
      with g(3) show ?thesis by blast
    qed
  qed
  have 4: "\<exists>cb. G' (fst ch) = Some cb \<and> stored_h cb = Some m"
    using x by simp
  from 1 g(2) 3 4 g(4) show ?case by auto
qed

lemma value_of_Inr: "value_of r = Inr v \<longleftrightarrow> (\<exists>H'. r = Inr (v, H'))"
  by (cases r) auto

lemma zero_offsets_values:
  "list_all2 P cs vs \<Longrightarrow>
   map2 (\<lambda>ch v. v + along Y (snd ch)) (map (\<lambda>ch. (fst ch, (0, 0))) cs) vs = vs"
  by (induction cs vs rule: list_all2_induct) auto

lemma zero_offsets_list_all2:
  "list_all2 (\<lambda>ch v. s (fst ch) = Inr v) cs vs \<Longrightarrow>
   list_all2 (\<lambda>ch v. s (fst ch) = Inr v) (map (\<lambda>ch. (fst ch, (0::int, 0::int))) cs) vs"
  by (induction cs vs rule: list_all2_induct) auto

lemma cell_ok_same_tree: "same_tree H G \<Longrightarrow> cell_ok H c \<Longrightarrow> cell_ok G c"
proof -
  assume st: "same_tree H G" and ok: "cell_ok H c"
  from ok obtain cb where cb: "H c = Some cb"
    and tb: "kind_of cb = TextBox \<longrightarrow> children cb \<noteq> [] \<and> stored_w cb \<noteq> None"
    by (auto simp: cell_ok_def)
  from st cb obtain cb' where c': "G c = Some cb'" "kind_of cb' = kind_of cb"
    "\<not> derived (kind_of cb) \<longrightarrow> cb' = cb" unfolding same_tree_def by blast
  show "cell_ok G c"
  proof (cases "kind_of cb = TextBox")
    case True
    then have "cb' = cb" using c'(3) by (simp add: derived_def)
    with c'(1) tb show ?thesis by (auto simp: cell_ok_def)
  next
    case False
    with c' show ?thesis by (auto simp: cell_ok_def)
  qed
qed

text \<open>
  Claim C5 (amended). Let the preparation of the cells of a Table succeed, in an acyclic
  object graph, and let the cells then report the heights \<open>hs\<close>. \<open>Table.prepare\<close>
  succeeds, makes no call on the renderer of its own, and stores in every cell the height
  \<open>max(0, max hs)\<close>: the maximum is computed from \<open>self._h = 0\<close>. Every cell whose class
  stores its height (every class but the stacking layouts) reports that height afterwards.
\<close>
theorem Table_prepare_equalizes:
  assumes "fst S a = Some ob" and "kind_of ob = Table"
    and "Object_prepare (prepare n R) a S = Inr (H1, L1)"
    and "ranked rk H1" and "H1 a = Some ob1" and "kind_of ob1 = Table"
    and "list_all2 (\<lambda>ch v. value_of (height n H1 (fst ch)) = Inr v) (children ob1) hs"
    and "\<forall>ch\<in>set (children ob1). cell_ok H1 (fst ch)"
  shows "\<exists>H2. prepare (Suc n) R a S = Inr (H2, L1) \<and>
           (\<forall>ch\<in>set (children ob1). \<exists>cb1 cb. H1 (fst ch) = Some cb1 \<and> H2 (fst ch) = Some cb \<and>
               kind_of cb = kind_of cb1 \<and> stored_h cb = Some (Max (set (0 # hs))) \<and>
               (\<not> derived (kind_of cb1) \<longrightarrow>
                  (\<forall>k. value_of (height (Suc k) H2 (fst ch)) = Inr (Max (set (0 # hs))))))"
proof -
  let ?cs = "children ob1"
  let ?zs = "map (\<lambda>ch. (fst ch, (0::int, 0::int))) ?cs"
  let ?Gz = "write_dim Y H1 a (Some 0)"
  let ?m = "Max (set (0 # hs))"
  have d1: "derived (kind_of ob1)" using assms(6) by (simp add: derived_def)
  have rks: "\<forall>ch\<in>set ?cs. rk (fst ch) < rk a" using assms(4,5) by (auto simp: ranked_def)
  then have rks0: "\<forall>ch\<in>set ?zs. rk (fst ch) < rk a" by simp
  have st0: "same_tree H1 ?Gz" using assms(5) d1 by (rule same_tree_write)
  have r0: "ranked rk ?Gz" using assms(4) st0 by (rule ranked_same_tree)
  have a0: "?Gz a = Some (set_stored Y (Some 0) ob1)"
    using write_dim_Some[where H = H1 and a = a and oa = ob1 and ax = Y and v = "Some 0", OF assms(5)]
    by (simp only: fun_upd_same)
  have val: "\<And>G c. ranked rk G \<Longrightarrow> same_tree H1 G \<Longrightarrow>
               value_of (dimension n Y G c) = spec_dim n Y H1 c"
    using dimension_value spec_dim_cong by simp
  have "list_all2 (\<lambda>ch v. spec_dim n Y H1 (fst ch) = Inr v) ?cs hs"
    using assms(7) dimension_value[OF assms(4), of n Y] by (simp add: height_dimension)
  then have l0: "list_all2 (\<lambda>ch v. spec_dim n Y H1 (fst ch) = Inr v) ?zs hs"
    by (rule zero_offsets_list_all2)
  have fc: "fold_children max Y (spec_dim n Y H1) ?zs 0 = Inr ?m"
    using fold_children_values[OF l0, of max Y 0]
    by (simp only: zero_offsets_values[OF assms(7)] foldl_max_Max)
  have "value_of (and_then (dim_loop max Y (dimension n Y) a ?zs ?Gz)
                    (\<lambda>G'. and_then (read_dim Y G' a) (\<lambda>v. Inr (v, G')))) = Inr ?m"
    using dim_loop_value[where g = "dimension n Y" and rk = rk and H = H1
        and s = "spec_dim n Y H1" and f = max and ax = Y, OF dimension_frame val rks0 r0 st0 a0]
      d1 fc by simp
  then obtain G1 where l1: "dim_loop max Y (dimension n Y) a ?zs ?Gz = Inr G1"
    and rd1: "read_dim Y G1 a = Inr ?m"
    by (auto simp: value_of_Inr and_then_Inr)
  have "same_tree ?Gz G1"
    using dim_loop_frame[where g = "dimension n Y" and rk = rk, OF dimension_frame rks0 r0 a0 _ l1]
      d1 by simp
  with st0 have st1: "same_tree H1 G1" by (rule same_tree_trans)
  from st1 assms(5) obtain oa1 where oa1: "G1 a = Some oa1" "children oa1 = ?cs"
    unfolding same_tree_def by blast
  with rd1 have sh: "stored_h oa1 = Some ?m"
    by (auto simp: read_h_def split: option.splits)
  have cells: "\<forall>ch\<in>set ?cs. fst ch \<noteq> a \<and> cell_ok G1 (fst ch)"
    using rks assms(8) st1 by (auto intro: cell_ok_same_tree)
  from Table_set_loop_all[OF oa1(1) sh cells] obtain H2 where
    h2: "Table_set_loop a ?cs G1 = Inr H2"
    and kinds: "\<forall>b cb. G1 b = Some cb \<longrightarrow> (\<exists>cb'. H2 b = Some cb' \<and> kind_of cb' = kind_of cb \<and>
                     (stored_h cb = Some ?m \<longrightarrow> stored_h cb' = Some ?m))"
    and all: "\<forall>ch\<in>set ?cs. \<exists>cb. H2 (fst ch) = Some cb \<and> stored_h cb = Some ?m" by blast
  have eq: "Table_equalize (height n) a H1 = Inr H2"
    using l1 h2 oa1 assms(5)
    by (simp add: Table_equalize_def Table_max_loop_dim height_dimension children_of_def)
  have p: "prepare (Suc n) R a S = Inr (H2, L1)"
    using assms(1,2,3) eq by (simp add: Table_prepare_def)
  have "\<forall>ch\<in>set ?cs. \<exists>cb1 cb. H1 (fst ch) = Some cb1 \<and> H2 (fst ch) = Some cb \<and>
               kind_of cb = kind_of cb1 \<and> stored_h cb = Some ?m \<and>
               (\<not> derived (kind_of cb1) \<longrightarrow> (\<forall>k. value_of (height (Suc k) H2 (fst ch)) = Inr ?m))"
  proof
    fix ch assume c: "ch \<in> set ?cs"
    with all obtain cb where cb: "H2 (fst ch) = Some cb" "stored_h cb = Some ?m" by blast
    from c assms(8) obtain cb1 where cb1: "H1 (fst ch) = Some cb1" by (auto simp: cell_ok_def)
    with st1 obtain cg where cg: "G1 (fst ch) = Some cg" "kind_of cg = kind_of cb1"
      unfolding same_tree_def by blast
    with kinds cb have k: "kind_of cb = kind_of cb1" by fastforce
    have "\<not> derived (kind_of cb1) \<longrightarrow> (\<forall>k. value_of (height (Suc k) H2 (fst ch)) = Inr ?m)"
      using cb k by (auto simp: derived_def Object_height_def)
    with cb cb1 k show "\<exists>cb1 cb. H1 (fst ch) = Some cb1 \<and> H2 (fst ch) = Some cb \<and>
               kind_of cb = kind_of cb1 \<and> stored_h cb = Some ?m \<and>
               (\<not> derived (kind_of cb1) \<longrightarrow> (\<forall>k. value_of (height (Suc k) H2 (fst ch)) = Inr ?m))"
      by blast
  qed
  with p show ?thesis by blast
qed

lemma table_scene_heap: "table_scene h0 h1 h2 = Inr (table_heap h0 h1 h2)"
  by (auto simp: table_scene_def table_heap_def new_Rectangle_def new_Table_def
      Object_init_def initial_world_def modify_def add_def rect_obj_def layout_obj_def Let_def
      fun_upd_twist numeral_2_eq_2 numeral_3_eq_3)

lemma neg_table_scene_heap:
  "neg_table_scene =
     Inr (Map.empty(0 \<mapsto> rect_obj 5 5 (Some 1),
                    1 \<mapsto> (layout_obj VLayout [(0, (0, - 10))])\<lparr>parent := Some 2\<rparr>,
                    2 \<mapsto> layout_obj Table [(1, (0, 0))]))"
  by (auto simp: neg_table_scene_def new_Rectangle_def new_Table_def new_VLayout_def
      Object_init_def initial_world_def modify_def add_def rect_obj_def layout_obj_def Let_def
      fun_upd_twist numeral_2_eq_2)

text \<open>The example of the claim: cells with heights 10, 25 and 15 all report 25 afterwards.\<close>
theorem Table_prepare_equalizes_witness:
  "and_then (table_scene 10 25 15) (\<lambda>H. and_then (prepare 2 fixed_bbox 3 (H, []))
      (\<lambda>S. Inr (map (\<lambda>c. value_of (height 1 (fst S) c)) [0, 1, 2], snd S))) =
     Inr ([Inr 25, Inr 25, Inr 25], [])"
proof -
  let ?t = "layout_obj Table [(0, (0, 0)), (1, (0, 0)), (2, (0, 0))]"
  let ?H = "table_heap 10 25 15"
  have k: "kind_of ?t = Table" "children ?t = [(0, (0, 0)), (1, (0, 0)), (2, (0, 0))]"
    by (simp_all add: layout_obj_def)
  have a: "?H 3 = Some ?t" by (simp add: table_heap_def)
  have a': "fst (?H, [] :: call list) 3 = Some ?t" using a by simp
  have cells: "?H 0 = Some (rect_obj 5 10 (Some 3))" "?H 1 = Some (rect_obj 5 25 (Some 3))"
    "?H 2 = Some (rect_obj 5 15 (Some 3))" by (simp_all add: table_heap_def)
  have pc: "\<And>c L. c = 0 \<or> c = 1 \<or> c = 2 \<Longrightarrow> prepare 1 fixed_bbox c (?H, L) = Inr (?H, L)"
    using cells by (auto simp: Object_prepare_def children_of_def rect_obj_def)
  have p: "Object_prepare (prepare 1 fixed_bbox) 3 (?H, []) = Inr (?H, [])"
    by (simp add: Object_prepare_def children_of_def a k pc del: prepare.simps One_nat_def)
  have r: "ranked (\<lambda>a. a) ?H"
    by (auto simp: ranked_def table_heap_def rect_obj_def layout_obj_def split: if_splits)
  have h: "value_of (height 1 ?H 0) = Inr 10" "value_of (height 1 ?H 1) = Inr 25"
    "value_of (height 1 ?H 2) = Inr 15"
    using cells by (simp_all add: Object_height_def rect_obj_def)
  have hs: "list_all2 (\<lambda>ch v. value_of (height 1 ?H (fst ch)) = Inr v) (children ?t) [10, 25, 15]"
    by (simp only: k list_all2_Cons list_all2_Nil fst_conv h simp_thms)
  have ok: "\<forall>ch\<in>set (children ?t). cell_ok ?H (fst ch)"
    unfolding k using cells by (simp add: cell_ok_def rect_obj_def)
  note t = Table_prepare_equalizes[where S = "(?H, [])" and a = 3 and n = 1 and R = fixed_bbox
      and rk = "\<lambda>a. a", OF a' k(1) p r a k(1) hs ok]
  have m: "Max (set (0 # [10, 25, 15])) = (25::int)" by simp
  from t obtain H2 where p2: "prepare (Suc 1) fixed_bbox 3 (?H, []) = Inr (H2, [])"
    and c: "\<forall>ch\<in>set (children ?t). \<exists>cb1 cb. ?H (fst ch) = Some cb1 \<and> H2 (fst ch) = Some cb \<and>
               kind_of cb = kind_of cb1 \<and> stored_h cb = Some 25 \<and>
               (\<not> derived (kind_of cb1) \<longrightarrow> (\<forall>k. value_of (height (Suc k) H2 (fst ch)) = Inr 25))"
    unfolding m by blast
  have nd: "\<not> derived (kind_of (rect_obj 5 10 (Some 3)))" "\<not> derived (kind_of (rect_obj 5 25 (Some 3)))"
    "\<not> derived (kind_of (rect_obj 5 15 (Some 3)))" by (simp_all add: rect_obj_def derived_def)
  have "(0, (0, 0)) \<in> set (children ?t)" "(1, (0, 0)) \<in> set (children ?t)"
    "(2, (0, 0)) \<in> set (children ?t)" unfolding k by simp_all
  with c cells nd have v: "value_of (height (Suc 0) H2 0) = Inr 25"
    "value_of (height (Suc 0) H2 1) = Inr 25" "value_of (height (Suc 0) H2 2) = Inr 25"
    by fastforce+
  have two: "prepare 2 fixed_bbox 3 (?H, []) = prepare (Suc 1) fixed_bbox 3 (?H, [])"
    by (simp add: numeral_2_eq_2)
  have one: "\<And>G c. height 1 G c = height (Suc 0) G c" by simp
  show ?thesis
    unfolding table_scene_heap and_then.simps two p2 one fst_conv snd_conv list.map v ..
qed

text \<open>
  Claim C5 as stated fails where every cell height is negative: cells of heights -5, -7
  and -6 are all set to 0, not to their maximum -5; and a VLayout cell of (derived) height
  -5 gets 0 stored, which its getter then ignores.
\<close>
theorem Table_max_starts_at_zero:
  "and_then (table_scene (- 5) (- 7) (- 6)) (\<lambda>H. and_then (prepare 2 fixed_bbox 3 (H, []))
      (\<lambda>S. Inr (map (\<lambda>c. value_of (height 1 (fst S) c)) [0, 1, 2]))) =
     Inr [Inr 0, Inr 0, Inr 0] \<and>
   Max (set [- 5, - 7, - 6 :: int]) = - 5 \<and>
   and_then neg_table_scene (\<lambda>H. value_of (height 2 H 1)) = Inr (- 5) \<and>
   and_then neg_table_scene (\<lambda>H. and_then (prepare 3 fixed_bbox 2 (H, []))
      (\<lambda>S. Inr (map_option stored_h (fst S 1), value_of (height 2 (fst S) 1)))) =
     Inr (Some (Some 0), Inr (- 5))"
proof -
  have 1: "and_then (table_scene (- 5) (- 7) (- 6)) (\<lambda>H. and_then (prepare 2 fixed_bbox 3 (H, []))
      (\<lambda>S. Inr (map (\<lambda>c. value_of (height 1 (fst S) c)) [0, 1, 2]))) =
     Inr [Inr 0, Inr 0, Inr 0]"
    by (simp add: table_scene_heap table_heap_def numeral_2_eq_2 numeral_3_eq_3 Table_prepare_def
        Object_prepare_def Table_equalize_def children_of_def write_h_def read_h_def
        Object_height_def set_height_def rect_obj_def layout_obj_def)
  have 2: "Max (set [- 5, - 7, - 6 :: int]) = - 5" by simp
  have 3: "and_then neg_table_scene (\<lambda>H. value_of (height 2 H 1)) = Inr (- 5)"
    by (simp add: neg_table_scene_heap numeral_2_eq_2 VLayout_height_def
        children_of_def write_h_def read_h_def return_h_def
        Object_height_def rect_obj_def layout_obj_def)
  have 4: "and_then neg_table_scene (\<lambda>H. and_then (prepare 3 fixed_bbox 2 (H, []))
      (\<lambda>S. Inr (map_option stored_h (fst S 1), value_of (height 2 (fst S) 1)))) =
     Inr (Some (Some 0), Inr (- 5))"
    by (simp add: neg_table_scene_heap numeral_2_eq_2 numeral_3_eq_3 Table_prepare_def
        Object_prepare_def Table_equalize_def VLayout_height_def children_of_def write_h_def
        read_h_def return_h_def Object_height_def set_height_def rect_obj_def layout_obj_def)
  from 1 2 3 4 show ?thesis by (intro conjI)
qed

end
